theory Spec2Isabelle
  imports Complex_Main
begin

section \<open>Data model\<close>

text \<open>
  The time series is a pandas DataFrame. One row of the frame built by
  \<^verbatim>\<open>get_historical_df\<close> (api_client.py) has the four parsed columns and the
  three derived delta columns. Dates are day numbers (midnight timestamps, as
  \<^verbatim>\<open>strptime\<close> with the format \<^verbatim>\<open>%m/%d/%y\<close> produces them); counts are Python
  integers. Python floats are real numbers in the model. Where a result of the
  program depends on the rounding (a label, a cast to an integer, an exact
  value), every float64 operation is rounded to the nearest double, by \<open>fl64\<close>
  below; for the rates, the herd-immunity threshold, the R0 estimate and the
  rolling means the model computes the value of the formula before rounding.
\<close>

record observation =
  Tanggal :: int
  Kasus :: int
  Kematian :: int
  Sembuh :: int

record row = observation +
  Kasus_Baru :: int
  Kematian_Baru :: int
  Sembuh_Baru :: int

type_synonym dataframe = "row list"

text \<open>
  Exceptions as values. \<open>KeyError\<close>, \<open>ValueError\<close>, \<open>ZeroDivisionError\<close>, \<open>TypeError\<close>,
  \<open>OverflowError\<close> and pandas' \<open>DataError\<close> are what Python and pandas raise on the
  modelled paths. \<open>EmptyDataError\<close> and \<open>InvalidWindowError\<close> are the two error names
  of the specification's taxonomy; no class of either name is declared in the
  sources and no path of the model constructs them.
\<close>

datatype error =
  KeyError | ValueError | ZeroDivisionError | TypeError | OverflowError | DataError
  | EmptyDataError | InvalidWindowError

text \<open>\<^verbatim>\<open>df[column]\<close>: the selector of a named column, \<open>None\<close> when the frame has no such column.\<close>

definition column_of :: "string \<Rightarrow> (row \<Rightarrow> int) option" where
  "column_of c =
     (if c = ''Tanggal'' then Some Tanggal
      else if c = ''Kasus'' then Some Kasus
      else if c = ''Kematian'' then Some Kematian
      else if c = ''Sembuh'' then Some Sembuh
      else if c = ''Kasus_Baru'' then Some Kasus_Baru
      else if c = ''Kematian_Baru'' then Some Kematian_Baru
      else if c = ''Sembuh_Baru'' then Some Sembuh_Baru
      else None)"

text \<open>The one column of dtype datetime64; the others are integer columns.\<close>

definition is_datetime_column :: "string \<Rightarrow> bool" where
  "is_datetime_column c = (c = ''Tanggal'')"

section \<open>utils.py: rates\<close>

definition calculate_cfr :: "int \<Rightarrow> int \<Rightarrow> real" where
  "calculate_cfr deaths cases =
     (if cases = 0 then 0 else (real_of_int deaths / real_of_int cases) * 100)"

definition calculate_recovery_rate :: "int \<Rightarrow> int \<Rightarrow> real" where
  "calculate_recovery_rate recovered cases =
     (if cases = 0 then 0 else (real_of_int recovered / real_of_int cases) * 100)"

definition calculate_active_rate :: "int \<Rightarrow> int \<Rightarrow> real" where
  "calculate_active_rate active cases =
     (if cases = 0 then 0 else (real_of_int active / real_of_int cases) * 100)"

definition calculate_herd_immunity_threshold :: "real \<Rightarrow> real" where
  "calculate_herd_immunity_threshold r0 =
     (if r0 \<le> 1 then 0 else (1 - 1 / r0) * 100)"

section \<open>pandas primitives used by the sources\<close>

text \<open>
  \<^verbatim>\<open>head(n)\<close> is \<^verbatim>\<open>iloc[:n]\<close> and \<^verbatim>\<open>tail(n)\<close> is \<^verbatim>\<open>iloc[-n:]\<close> (empty for n = 0),
  so a negative n drops rows from the other end instead of raising.
\<close>

definition df_head :: "int \<Rightarrow> 'a list \<Rightarrow> 'a list" where
  "df_head n xs =
     (if 0 \<le> n then take (nat n) xs else take (length xs - nat (- n)) xs)"

definition df_tail :: "int \<Rightarrow> 'a list \<Rightarrow> 'a list" where
  "df_tail n xs =
     (if n = 0 then []
      else if 0 < n then drop (length xs - nat n) xs
      else drop (nat (- n)) xs)"

text \<open>\<^verbatim>\<open>Series.mean()\<close> of an integer column; \<open>None\<close> is the NaN pandas returns for an empty series.\<close>

definition series_mean :: "int list \<Rightarrow> real option" where
  "series_mean xs =
     (if xs = [] then None else Some (real_of_int (sum_list xs) / real (length xs)))"

text \<open>
  Python's \<^verbatim>\<open>**\<close> on floats as \<^verbatim>\<open>calculate_r0_estimate\<close> uses it: a positive
  base, or the exponent 1 (and 0), for which the result is the base (and 1)
  whatever its sign.
\<close>

definition float_pow :: "real \<Rightarrow> real \<Rightarrow> real" where
  "float_pow x y = (if y = 0 then 1 else if y = 1 then x else x powr y)"

text \<open>
  float64 arithmetic where a result of the program depends on the rounding:
  \<open>fl64 x\<close> is the double nearest to the real x, ties to the even significand
  (53 bits). The exponent is unbounded in the model: overflow to infinity and
  subnormal numbers are left out, no value of the modelled paths comes near
  either. Each float64 operation of the source is the exact operation followed
  by \<open>fl64\<close>.
\<close>

definition round_half_even :: "real \<Rightarrow> int" where
  "round_half_even y =
     (let f = \<lfloor>y\<rfloor>; r = y - real_of_int f
      in if r < 1 / 2 then f
         else if 1 / 2 < r then f + 1
         else if even f then f else f + 1)"

definition fl64 :: "real \<Rightarrow> real" where
  "fl64 x =
     (if x = 0 then 0
      else
        let u = 2 powi (\<lfloor>log 2 \<bar>x\<bar>\<rfloor> - 52)
        in real_of_int (round_half_even (x / u)) * u)"

text \<open>
  \<^verbatim>\<open>Series.mean()\<close> in float64: the float64 sum of the integers, which is their
  exact sum as long as it stays within 2^53 in magnitude, divided by the count;
  \<open>None\<close> is NaN.
\<close>

definition float_mean :: "int list \<Rightarrow> real option" where
  "float_mean xs =
     (if xs = [] then None
      else Some (fl64 (real_of_int (sum_list xs) / real (length xs))))"

text \<open>
  \<^verbatim>\<open>rolling(window=w, min_periods=m).mean()\<close> for a window w >= 1 over a column
  without missing values: position i sees the rows i-w+1 .. i that exist, and is
  NaN (\<open>None\<close>) when fewer than m of them do.
\<close>

definition rolling_window :: "nat \<Rightarrow> nat \<Rightarrow> int list \<Rightarrow> int list" where
  "rolling_window w i xs = take (Suc i - (Suc i - w)) (drop (Suc i - w) xs)"

definition rolling_mean :: "nat \<Rightarrow> nat \<Rightarrow> int list \<Rightarrow> real option list" where
  "rolling_mean w m xs =
     map (\<lambda>i. let win = rolling_window w i xs
              in if length win < m then None else series_mean win)
         [0..<length xs]"

text \<open>
  \<^verbatim>\<open>Series.idxmax()\<close>: one scan that replaces the running best only by a strictly
  larger value. On an empty series pandas raises ValueError. The frames of this
  program carry the default index 0..n-1 (\<^verbatim>\<open>reset_index(drop=True)\<close>), or a subset
  of it after filtering, so the label \<^verbatim>\<open>df.loc[idx]\<close> looks up is the row at the
  position found.
\<close>

fun argmax_scan :: "nat \<Rightarrow> int \<Rightarrow> nat \<Rightarrow> int list \<Rightarrow> nat" where
  "argmax_scan best bv i [] = best"
| "argmax_scan best bv i (x # xs) =
     (if bv < x then argmax_scan i x (Suc i) xs else argmax_scan best bv (Suc i) xs)"

definition idxmax :: "int list \<Rightarrow> error + nat" where
  "idxmax xs = (case xs of [] \<Rightarrow> Inl ValueError | x # rest \<Rightarrow> Inr (argmax_scan 0 x 1 rest))"

text \<open>
  The dtype pandas gives a column of Python integers: int64 when every value
  fits, uint64 when the values are non-negative and fit in 64 bits, and
  otherwise object, a column of Python integers.
\<close>

datatype dtype = Int64 | UInt64 | Object

definition infer_dtype :: "int list \<Rightarrow> dtype" where
  "infer_dtype xs =
     (if list_all (\<lambda>x. - (2 ^ 63) \<le> x \<and> x < 2 ^ 63) xs then Int64
      else if list_all (\<lambda>x. 0 \<le> x \<and> x < 2 ^ 64) xs then UInt64
      else Object)"

definition wrap_int64 :: "int \<Rightarrow> int" where
  "wrap_int64 z = (z + 2 ^ 63) mod 2 ^ 64 - 2 ^ 63"

text \<open>
  \<^verbatim>\<open>diff()\<close>: the first entry is NaN (\<open>None\<close>). On an int64 or uint64 column the
  difference is taken in the column's 64-bit arithmetic, where it wraps, and
  stored as float64, where it is rounded; on an object column it is the exact
  Python difference.
\<close>

definition diff_value :: "dtype \<Rightarrow> int \<Rightarrow> int \<Rightarrow> real" where
  "diff_value t prev cur =
     (case t of
        Int64 \<Rightarrow> fl64 (real_of_int (wrap_int64 (cur - prev)))
      | UInt64 \<Rightarrow> fl64 (real_of_int ((cur - prev) mod 2 ^ 64))
      | Object \<Rightarrow> real_of_int (cur - prev))"

definition series_diff :: "dtype \<Rightarrow> int list \<Rightarrow> real option list" where
  "series_diff t xs =
     (case xs of
        [] \<Rightarrow> []
      | x # rest \<Rightarrow> None # map2 (\<lambda>prev cur. Some (diff_value t prev cur)) xs rest)"

definition fillna :: "real \<Rightarrow> real option list \<Rightarrow> real list" where
  "fillna v ys = map (\<lambda>y. case y of None \<Rightarrow> v | Some x \<Rightarrow> x) ys"

definition clip_lower :: "real \<Rightarrow> real list \<Rightarrow> real list" where
  "clip_lower l ys = map (\<lambda>y. if y < l then l else y) ys"

text \<open>
  \<^verbatim>\<open>astype(int)\<close>, the cast to int64. A float64 is truncated, and a value
  outside the int64 range becomes the minimum, -2^63, as the conversion does on
  x86-64; a Python integer outside the range raises OverflowError.
\<close>

definition cast_int64 :: "dtype \<Rightarrow> real \<Rightarrow> error + int" where
  "cast_int64 t v =
     (let n = (if 0 \<le> v then \<lfloor>v\<rfloor> else \<lceil>v\<rceil>)
      in if - (2 ^ 63) \<le> n \<and> n < 2 ^ 63 then Inr n
         else if t = Object then Inl OverflowError
         else Inr (- (2 ^ 63)))"

fun astype_int_column :: "dtype \<Rightarrow> real list \<Rightarrow> error + int list" where
  "astype_int_column t [] = Inr []"
| "astype_int_column t (v # vs) =
     (case cast_int64 t v of
        Inl e \<Rightarrow> Inl e
      | Inr n \<Rightarrow>
          (case astype_int_column t vs of
             Inl e \<Rightarrow> Inl e
           | Inr ns \<Rightarrow> Inr (n # ns)))"

text \<open>
  \<^verbatim>\<open>a / b\<close> on two counts read from a row of the frame. The scalars of an int64
  or uint64 column are numpy integers: each is converted to a double, which
  rounds it beyond 2^53, and the doubles are divided. The entries of an object
  column are Python integers, whose quotient is the exact one rounded once.
\<close>

definition int_true_divide :: "dtype \<Rightarrow> int \<Rightarrow> int \<Rightarrow> real" where
  "int_true_divide t a b =
     (case t of
        Object \<Rightarrow> fl64 (real_of_int a / real_of_int b)
      | _ \<Rightarrow> fl64 (fl64 (real_of_int a) / fl64 (real_of_int b)))"

fun cumsum_from :: "int \<Rightarrow> int list \<Rightarrow> int list" where
  "cumsum_from acc [] = []"
| "cumsum_from acc (x # xs) = (acc + x) # cumsum_from (acc + x) xs"

definition cumsum :: "int list \<Rightarrow> int list" where
  "cumsum xs = cumsum_from 0 xs"

text \<open>\<^verbatim>\<open>astype(int)\<close> on a float: truncation towards zero.\<close>

definition astype_int :: "real \<Rightarrow> int" where
  "astype_int x = (if 0 \<le> x then \<lfloor>x\<rfloor> else \<lceil>x\<rceil>)"

section \<open>utils.py: series metrics\<close>

text \<open>
  \<^verbatim>\<open>calculate_rolling_average\<close> has no check of its own. \<^verbatim>\<open>df[column]\<close> raises
  KeyError for a missing column; then pandas validates the arguments of
  \<^verbatim>\<open>rolling(window=window, min_periods=1)\<close> and raises ValueError for a window
  below 1, because min_periods exceeds it; then \<^verbatim>\<open>mean()\<close> raises DataError on
  the datetime column, which it cannot aggregate.
\<close>

definition calculate_rolling_average :: "dataframe \<Rightarrow> string \<Rightarrow> int \<Rightarrow> error + real option list" where
  "calculate_rolling_average df column window =
     (case column_of column of
        None \<Rightarrow> Inl KeyError
      | Some f \<Rightarrow>
          if window < 1 then Inl ValueError
          else if is_datetime_column column then Inl DataError
          else Inr (rolling_mean (nat window) 1 (map f df)))"

text \<open>
  \<^verbatim>\<open>calculate_r0_estimate\<close>. A NaN mean (\<open>None\<close>) fails the test
  \<^verbatim>\<open>previous_avg <= 0\<close>, the division \<^verbatim>\<open>generation_time / generation_time\<close> raises
  for 0, and \<^verbatim>\<open>max(0.1, min(10.0, nan))\<close> is 10.0 because every comparison with
  NaN is false.
\<close>

definition calculate_r0_estimate :: "dataframe \<Rightarrow> int \<Rightarrow> error + real" where
  "calculate_r0_estimate df generation_time =
     (if int (length df) < generation_time * 2 then Inr 1
      else
        let recent = df_tail (generation_time * 2) df;
            current_avg = series_mean (map Kasus_Baru (df_tail generation_time recent));
            previous_avg = series_mean (map Kasus_Baru (df_head generation_time recent))
        in if (case previous_avg of None \<Rightarrow> False | Some p \<Rightarrow> p \<le> 0) then Inr 1
           else if generation_time = 0 then Inl ZeroDivisionError
           else
             (case (current_avg, previous_avg) of
                (Some c, Some p) \<Rightarrow>
                  let ratio = c / p;
                      r0 = float_pow ratio (real_of_int generation_time / real_of_int generation_time)
                  in Inr (max (1 / 10) (min 10 r0))
              | _ \<Rightarrow> Inr 10))"

text \<open>
  \<^verbatim>\<open>calculate_doubling_time\<close>, in float64. The two counts are scalars of the
  column Kasus, compared as integers and divided as \<open>int_true_divide\<close> does for
  the dtype of that column; \<^verbatim>\<open>1 / 14\<close> is a double; the power, the two
  logarithms, the subtraction, the addition and the final division are each
  the exact operation rounded to the nearest double (the power and the
  logarithm are taken to be correctly rounded). The base of the power is
  positive on the path that reaches it.
\<close>

definition calculate_doubling_time :: "dataframe \<Rightarrow> real option" where
  "calculate_doubling_time df =
     (if length df < 14 then None
      else
        let recent = df_tail 14 df;
            start_cases = Kasus (hd recent);
            end_cases = Kasus (last recent)
        in if start_cases \<le> 0 \<or> end_cases \<le> start_cases then None
           else
             let growth_rate =
                   fl64 (fl64 (int_true_divide (infer_dtype (map Kasus df)) end_cases start_cases
                                 powr fl64 (1 / 14)) - 1)
             in if growth_rate \<le> 0 then None
                else Some (fl64 (fl64 (ln 2) / fl64 (ln (fl64 (1 + growth_rate))))))"

text \<open>
  \<^verbatim>\<open>get_trend_direction\<close>, in float64: the label depends on which side of the
  doubles 0.1 and -0.1 the rounded quotient falls. The two means are doubles,
  their difference and the quotient are rounded, and the literals \<^verbatim>\<open>0.1\<close> and
  \<^verbatim>\<open>-0.1\<close> are \<open>fl64 (1 / 10)\<close> and its negation. A NaN mean (\<open>None\<close>, empty half)
  fails every comparison. On the datetime column the means are timestamps and
  the division of their difference by a timestamp raises TypeError.
\<close>

definition get_trend_direction :: "dataframe \<Rightarrow> string \<Rightarrow> int \<Rightarrow> error + string" where
  "get_trend_direction df column days =
     (if int (length df) < days * 2 then Inr ''stabil''
      else
        (case column_of column of
           None \<Rightarrow> Inl KeyError
         | Some f \<Rightarrow>
             if is_datetime_column column then Inl TypeError
             else
               let recent = df_tail (days * 2) df;
                   first_half = float_mean (map f (df_head days recent));
                   second_half = float_mean (map f (df_tail days recent))
               in (case (first_half, second_half) of
                     (Some a, Some b) \<Rightarrow>
                       if a = 0 then Inr ''stabil''
                       else
                         let change = fl64 (fl64 (b - a) / a)
                         in if change > fl64 (1 / 10) then Inr ''naik''
                            else if change < - fl64 (1 / 10) then Inr ''turun''
                            else Inr ''stabil''
                   | _ \<Rightarrow> Inr ''stabil'')))"

definition filter_by_date_range ::
  "dataframe \<Rightarrow> int option \<Rightarrow> int option \<Rightarrow> string \<Rightarrow> error + dataframe" where
  "filter_by_date_range df start_date end_date date_column =
     (if df = [] then Inr df
      else
        (case (case start_date of
                 None \<Rightarrow> Inr df
               | Some s \<Rightarrow>
                   (case column_of date_column of
                      None \<Rightarrow> Inl KeyError
                    | Some d \<Rightarrow> Inr (filter (\<lambda>r. s \<le> d r) df))) of
           Inl e \<Rightarrow> Inl e
         | Inr result \<Rightarrow>
             (case end_date of
                None \<Rightarrow> Inr result
              | Some e \<Rightarrow>
                  (case column_of date_column of
                     None \<Rightarrow> Inl KeyError
                   | Some d \<Rightarrow> Inr (filter (\<lambda>r. d r \<le> e) result)))))"

record peak =
  peak_date :: "int option"
  peak_value :: int

definition get_peak_info :: "dataframe \<Rightarrow> string \<Rightarrow> string \<Rightarrow> error + peak" where
  "get_peak_info df column date_column =
     (if df = [] then Inr \<lparr>peak_date = None, peak_value = 0\<rparr>
      else
        (case column_of column of
           None \<Rightarrow> Inr \<lparr>peak_date = None, peak_value = 0\<rparr>
         | Some f \<Rightarrow>
             (case idxmax (map f df) of
                Inl e \<Rightarrow> Inl e
              | Inr idx \<Rightarrow>
                  let peak_row = df ! idx
                  in Inr \<lparr>peak_date =
                            (case column_of date_column of
                               None \<Rightarrow> None
                             | Some d \<Rightarrow> Some (d peak_row)),
                          peak_value = f peak_row\<rparr>)))"

section \<open>api_client.py: ingestion and the fallback generator\<close>

text \<open>
  The decoded JSON of the historical endpoint: an optional \<^verbatim>\<open>timeline\<close> object
  with optional dictionaries from date strings to counts (association lists in
  key order).
\<close>

record timeline =
  tl_cases :: "(string \<times> int) list option"
  tl_deaths :: "(string \<times> int) list option"
  tl_recovered :: "(string \<times> int) list option"

record api_data =
  timeline_of :: "timeline option"

text \<open>\<^verbatim>\<open>timeline.get(name, {}).get(date_str, 0)\<close>\<close>

definition get_count :: "(string \<times> int) list option \<Rightarrow> string \<Rightarrow> int" where
  "get_count d date_str =
     (case d of
        None \<Rightarrow> 0
      | Some kvs \<Rightarrow> (case map_of kvs date_str of None \<Rightarrow> 0 | Some v \<Rightarrow> v))"

text \<open>
  The parsing loop. \<open>strptime\<close> is \<^verbatim>\<open>datetime.strptime(_, "%m/%d/%y")\<close>, a parameter:
  \<open>None\<close> is the ValueError that the loop's \<^verbatim>\<open>except\<close> turns into \<^verbatim>\<open>continue\<close>.
\<close>

fun parse_rows :: "(string \<Rightarrow> int option) \<Rightarrow> timeline \<Rightarrow> string list \<Rightarrow> observation list" where
  "parse_rows strptime tline [] = []"
| "parse_rows strptime tline (date_str # dates) =
     (case strptime date_str of
        None \<Rightarrow> parse_rows strptime tline dates
      | Some dt \<Rightarrow>
          \<lparr>Tanggal = dt,
           Kasus = get_count (tl_cases tline) date_str,
           Kematian = get_count (tl_deaths tline) date_str,
           Sembuh = get_count (tl_recovered tline) date_str\<rparr>
          # parse_rows strptime tline dates)"

text \<open>The derived column \<^verbatim>\<open>df[c].diff().fillna(0).clip(lower=0).astype(int)\<close>.\<close>

definition new_column :: "int list \<Rightarrow> error + int list" where
  "new_column xs =
     (let t = infer_dtype xs
      in astype_int_column t (clip_lower 0 (fillna 0 (series_diff t xs))))"

text \<open>
  The delta column in the specification's words: 0 in the first row, then the
  maximum of 0 and the difference from the previous row, over the integers.
\<close>

definition spec_deltas :: "int list \<Rightarrow> int list" where
  "spec_deltas xs =
     map (\<lambda>i. if i = 0 then 0 else max 0 (xs ! i - xs ! (i - 1))) [0..<length xs]"

text \<open>
  Lines 128 to 136: sort by date, then add the three delta columns, in the
  order of the source. pandas leaves the order of rows with equal dates open;
  the model sorts stably.
\<close>

definition build_df :: "observation list \<Rightarrow> error + dataframe" where
  "build_df rows =
     (let df = sort_key Tanggal rows
      in case new_column (map Kasus df) of
           Inl e \<Rightarrow> Inl e
         | Inr kasus_baru \<Rightarrow>
             (case new_column (map Kematian df) of
                Inl e \<Rightarrow> Inl e
              | Inr kematian_baru \<Rightarrow>
                  (case new_column (map Sembuh df) of
                     Inl e \<Rightarrow> Inl e
                   | Inr sembuh_baru \<Rightarrow>
                       Inr (map (\<lambda>(ob, kb, mb, sb).
                                   \<lparr>Tanggal = Tanggal ob, Kasus = Kasus ob,
                                    Kematian = Kematian ob, Sembuh = Sembuh ob,
                                    Kasus_Baru = kb, Kematian_Baru = mb, Sembuh_Baru = sb\<rparr>)
                                (zip df (zip kasus_baru (zip kematian_baru sembuh_baru)))))))"

text \<open>
  The fallback generator. \<open>gauss seed i\<close> is the i-th standard normal draw of numpy's
  generator after \<^verbatim>\<open>np.random.seed(seed)\<close>, a parameter; 18322 is the day number
  of 2020-03-01.
\<close>

definition get_sample_historical_df :: "(nat \<Rightarrow> nat \<Rightarrow> real) \<Rightarrow> dataframe" where
  "get_sample_historical_df gauss =
     (let days = [0..<365];
          base_curve = map (\<lambda>d. 100 * exp (- ((real d - 150) ^ 2) / 5000)) days;
          noise = map (\<lambda>i. 0 + 10 * gauss 42 i) days;
          daily_cases = map2 (\<lambda>b n. astype_int (max 1 (b + n))) base_curve noise;
          cumulative_cases = cumsum daily_cases
      in map (\<lambda>(d, c, n).
                \<lparr>Tanggal = 18322 + int d,
                 Kasus = c,
                 Kematian = astype_int (real_of_int c * (25 / 1000)),
                 Sembuh = astype_int (real_of_int c * (85 / 100)),
                 Kasus_Baru = n,
                 Kematian_Baru = astype_int (real_of_int n * (25 / 1000)),
                 Sembuh_Baru = astype_int (real_of_int n * (85 / 100))\<rparr>)
             (zip days (zip cumulative_cases daily_cases)))"

text \<open>
  \<^verbatim>\<open>get_historical_df\<close>, with the fetched payload as its argument (\<open>None\<close> when
  the fetch failed). The parsing loop catches its exceptions; the one path that
  returns \<open>Inl\<close> is the cast of a delta column of Python integers beyond 64 bits.
\<close>

definition get_historical_df ::
  "(string \<Rightarrow> int option) \<Rightarrow> (nat \<Rightarrow> nat \<Rightarrow> real) \<Rightarrow> api_data option \<Rightarrow> error + dataframe" where
  "get_historical_df strptime gauss data =
     (case data of
        None \<Rightarrow> Inr (get_sample_historical_df gauss)
      | Some d \<Rightarrow>
          (case timeline_of d of
             None \<Rightarrow> Inr (get_sample_historical_df gauss)
           | Some tline \<Rightarrow>
               let dates = map fst (case tl_cases tline of None \<Rightarrow> [] | Some kvs \<Rightarrow> kvs);
                   rows = parse_rows strptime tline dates
               in if rows = [] then Inr (get_sample_historical_df gauss)
                  else build_df rows))"

section \<open>Concrete inputs\<close>

text \<open>A date parser that knows three dates, a generator that always draws 0, and a payload
  with a downward revision, an unparsable key and no recovered counts.\<close>

definition strptime_fixture :: "string \<Rightarrow> int option" where
  "strptime_fixture s =
     (if s = ''1/22/20'' then Some 18283
      else if s = ''1/23/20'' then Some 18284
      else if s = ''1/24/20'' then Some 18285
      else None)"

definition gauss_zero :: "nat \<Rightarrow> nat \<Rightarrow> real" where
  "gauss_zero seed i = 0"

definition data_fixture :: "api_data" where
  "data_fixture =
     \<lparr>timeline_of = Some
        \<lparr>tl_cases = Some [(''1/23/20'', 7), (''1/22/20'', 10), (''bad'', 99), (''1/24/20'', 12)],
         tl_deaths = Some [(''1/22/20'', 1), (''1/23/20'', 1), (''1/24/20'', 3)],
         tl_recovered = None\<rparr>\<rparr>"

text \<open>
  A payload whose cases rise by 2^53 + 1 and whose deaths rise by 2^63 - 1: both
  columns are non-decreasing and fit int64.
\<close>

definition data_large :: "api_data" where
  "data_large =
     \<lparr>timeline_of = Some
        \<lparr>tl_cases = Some [(''1/22/20'', 0), (''1/23/20'', 9007199254740993)],
         tl_deaths = Some [(''1/22/20'', 0), (''1/23/20'', 9223372036854775807)],
         tl_recovered = None\<rparr>\<rparr>"

text \<open>A four-row frame whose daily cases peak twice, at 7.\<close>

definition df_fixture :: dataframe where
  "df_fixture =
     [\<lparr>Tanggal = 18283, Kasus = 10, Kematian = 1, Sembuh = 0, Kasus_Baru = 0, Kematian_Baru = 0, Sembuh_Baru = 0\<rparr>,
      \<lparr>Tanggal = 18284, Kasus = 17, Kematian = 1, Sembuh = 0, Kasus_Baru = 7, Kematian_Baru = 0, Sembuh_Baru = 0\<rparr>,
      \<lparr>Tanggal = 18285, Kasus = 22, Kematian = 3, Sembuh = 0, Kasus_Baru = 5, Kematian_Baru = 2, Sembuh_Baru = 0\<rparr>,
      \<lparr>Tanggal = 18286, Kasus = 29, Kematian = 3, Sembuh = 4, Kasus_Baru = 7, Kematian_Baru = 0, Sembuh_Baru = 4\<rparr>]"

text \<open>
  Fourteen days whose daily cases sum to 30 over the first week and to 33 over
  the second: the weekly means 30/7 and 33/7 differ by exactly one tenth of the
  first.
\<close>

definition day_row :: "int \<Rightarrow> int \<Rightarrow> int \<Rightarrow> row" where
  "day_row d c n =
     \<lparr>Tanggal = d, Kasus = c, Kematian = 0, Sembuh = 0,
      Kasus_Baru = n, Kematian_Baru = 0, Sembuh_Baru = 0\<rparr>"

definition df_two_weeks :: dataframe where
  "df_two_weeks =
     [day_row 18283 104 4, day_row 18284 108 4, day_row 18285 112 4, day_row 18286 116 4,
      day_row 18287 120 4, day_row 18288 125 5, day_row 18289 130 5,
      day_row 18290 135 5, day_row 18291 140 5, day_row 18292 145 5, day_row 18293 150 5,
      day_row 18294 155 5, day_row 18295 159 4, day_row 18296 163 4]"

text \<open>Fourteen days over which the cumulative cases double, from 1000 to 2000.\<close>

definition df_doubling :: dataframe where
  "df_doubling =
     [day_row 18283 1000 0, day_row 18284 1050 50, day_row 18285 1110 60, day_row 18286 1170 60,
      day_row 18287 1240 70, day_row 18288 1310 70, day_row 18289 1380 70,
      day_row 18290 1460 80, day_row 18291 1540 80, day_row 18292 1620 80, day_row 18293 1710 90,
      day_row 18294 1800 90, day_row 18295 1900 100, day_row 18296 2000 100]"

text \<open>A generator that agrees with \<open>gauss_zero\<close> on the 365 draws after seed 42 and nowhere
  else, and a payload none of whose date keys parses.\<close>

definition gauss_other :: "nat \<Rightarrow> nat \<Rightarrow> real" where
  "gauss_other seed i = (if seed = 42 \<and> i < 365 then 0 else 1)"

definition data_unparsable :: "api_data" where
  "data_unparsable =
     \<lparr>timeline_of = Some
        \<lparr>tl_cases = Some [(''2020-01-22'', 5), (''bad'', 99)],
         tl_deaths = Some [(''2020-01-22'', 1)],
         tl_recovered = None\<rparr>\<rparr>"

section \<open>Rates and the herd-immunity threshold\<close>

text \<open>
  Claim C8. Each of the three rates returns 0.0 when cases = 0 and otherwise
  (numerator / cases) * 100; case_fatality_rate(0, 0) = 0.0 and
  case_fatality_rate(25, 1000) = 2.5.
\<close>

theorem rates_zero_guard_and_formula:
  "calculate_cfr d 0 = 0 \<and> calculate_recovery_rate r 0 = 0 \<and> calculate_active_rate a 0 = 0
   \<and> (c \<noteq> 0 \<longrightarrow>
        calculate_cfr d c = (real_of_int d / real_of_int c) * 100
      \<and> calculate_recovery_rate r c = (real_of_int r / real_of_int c) * 100
      \<and> calculate_active_rate a c = (real_of_int a / real_of_int c) * 100)
   \<and> calculate_cfr 0 0 = 0
   \<and> calculate_cfr 25 1000 = 5 / 2"
  by (simp add: calculate_cfr_def calculate_recovery_rate_def calculate_active_rate_def)

theorem rates_zero_guard_and_formula_witness:
  "(1000::int) \<noteq> 0
   \<and> calculate_cfr 25 1000 = 5 / 2
   \<and> calculate_recovery_rate 850 1000 = 85
   \<and> calculate_active_rate 125 1000 = 25 / 2"
  using rates_zero_guard_and_formula [of 25 850 125 1000] by simp

text \<open>
  Claim C9. herd_immunity_threshold(r0) is 0.0 for every r0 <= 1 and
  (1 - 1/r0) * 100 for every r0 > 1; it is approximately 60.0 at r0 = 2.5
  (within 10^-9) and exactly 0.0 at r0 = 0.8.
\<close>

theorem herd_immunity_threshold_cases:
  "(r0 \<le> 1 \<longrightarrow> calculate_herd_immunity_threshold r0 = 0)
   \<and> (1 < r0 \<longrightarrow> calculate_herd_immunity_threshold r0 = (1 - 1 / r0) * 100)
   \<and> \<bar>calculate_herd_immunity_threshold (5 / 2) - 60\<bar> < 1 / 10 ^ 9
   \<and> calculate_herd_immunity_threshold (8 / 10) = 0"
  by (simp add: calculate_herd_immunity_threshold_def)

theorem herd_immunity_threshold_cases_witness:
  "(4 / 5 :: real) \<le> 1 \<and> calculate_herd_immunity_threshold (4 / 5) = 0
   \<and> (1::real) < 4 \<and> calculate_herd_immunity_threshold 4 = 75"
  using herd_immunity_threshold_cases [of "4 / 5"] herd_immunity_threshold_cases [of 4]
  by simp

section \<open>float64 rounding\<close>

text \<open>
  \<open>fl64\<close> is determined by the binade of its argument: the lemmas give its value
  and its error from bounds \<open>2 powi e \<le> \<bar>x\<bar> < 2 powi (e + 1)\<close>.
\<close>

lemma round_half_even_of_int: "round_half_even (real_of_int n) = n"
  by (simp add: round_half_even_def)

lemma round_half_even_error: "\<bar>real_of_int (round_half_even y) - y\<bar> \<le> 1 / 2"
  unfolding round_half_even_def Let_def
  by (auto simp: abs_le_iff)

lemma floor_log2_eq:
  assumes "2 powi e \<le> x" and "x < 2 powi (e + 1)"
  shows "\<lfloor>log 2 x\<rfloor> = e"
proof -
  have pos: "0 < x" using assms(1) by (smt (verit) zero_less_power_int)
  have a: "(2::real) powr real_of_int e = 2 powi e"
    by (rule powr_real_of_int') simp_all
  have b: "(2::real) powr real_of_int (e + 1) = 2 powi (e + 1)"
    by (rule powr_real_of_int') simp_all
  have "real_of_int e \<le> log 2 x"
    using assms(1) pos by (simp add: le_log_iff a)
  moreover have "log 2 x < real_of_int (e + 1)"
    using assms(2) pos by (simp only: log_less_iff b)
  ultimately show ?thesis by (intro floor_unique) simp_all
qed

lemma fl64_binade:
  assumes "2 powi e \<le> \<bar>x\<bar>" and "\<bar>x\<bar> < 2 powi (e + 1)"
  shows "fl64 x = real_of_int (round_half_even (x / 2 powi (e - 52))) * 2 powi (e - 52)"
proof -
  have "x \<noteq> 0" using assms(1) by (smt (verit) zero_less_power_int abs_zero)
  moreover have "\<lfloor>log 2 \<bar>x\<bar>\<rfloor> = e" using assms by (rule floor_log2_eq)
  ultimately show ?thesis by (simp add: fl64_def Let_def)
qed

lemma fl64_error:
  assumes "2 powi e \<le> \<bar>x\<bar>" and "\<bar>x\<bar> < 2 powi (e + 1)"
  shows "\<bar>fl64 x - x\<bar> \<le> 2 powi (e - 53)"
proof -
  let ?u = "(2::real) powi (e - 52)"
  have u: "0 < ?u" by simp
  have "\<bar>real_of_int (round_half_even (x / ?u)) - x / ?u\<bar> \<le> 1 / 2"
    by (rule round_half_even_error)
  then have "\<bar>real_of_int (round_half_even (x / ?u)) - x / ?u\<bar> * ?u \<le> 1 / 2 * ?u"
    using u by (intro mult_right_mono) simp_all
  moreover have "\<bar>real_of_int (round_half_even (x / ?u)) - x / ?u\<bar> * ?u
      = \<bar>real_of_int (round_half_even (x / ?u)) * ?u - x\<bar>"
  proof -
    have "real_of_int (round_half_even (x / ?u)) * ?u - x
        = (real_of_int (round_half_even (x / ?u)) - x / ?u) * ?u"
      using u by (simp add: left_diff_distrib)
    then show ?thesis using u by (simp only: abs_mult)
  qed
  moreover have "1 / 2 * ?u = 2 powi (e - 53)"
    by (simp add: power_int_diff)
  ultimately show ?thesis
    unfolding fl64_binade [OF assms] by simp
qed

lemma fl64_exact:
  assumes "2 powi e \<le> \<bar>x\<bar>" and "\<bar>x\<bar> < 2 powi (e + 1)"
    and "x = real_of_int n * 2 powi (e - 52)"
  shows "fl64 x = x"
proof -
  have "x / 2 powi (e - 52) = real_of_int n" using assms(3) by simp
  then show ?thesis
    unfolding fl64_binade [OF assms(1,2)] by (simp add: round_half_even_of_int assms(3))
qed

lemma binade_exists:
  assumes "x \<noteq> 0"
  shows "2 powi \<lfloor>log 2 \<bar>x\<bar>\<rfloor> \<le> \<bar>x\<bar> \<and> \<bar>x\<bar> < 2 powi (\<lfloor>log 2 \<bar>x\<bar>\<rfloor> + 1)"
proof -
  let ?e = "\<lfloor>log 2 \<bar>x\<bar>\<rfloor>"
  have pos: "0 < \<bar>x\<bar>" using assms by simp
  have a: "(2::real) powr real_of_int ?e = 2 powi ?e"
    by (rule powr_real_of_int') simp_all
  have b: "(2::real) powr real_of_int (?e + 1) = 2 powi (?e + 1)"
    by (rule powr_real_of_int') simp_all
  have "real_of_int ?e \<le> log 2 \<bar>x\<bar>" by simp
  then have "2 powr real_of_int ?e \<le> \<bar>x\<bar>" using pos by (simp only: le_log_iff)
  moreover have "log 2 \<bar>x\<bar> < real_of_int (?e + 1)" by simp
  then have "\<bar>x\<bar> < 2 powr real_of_int (?e + 1)" using pos by (simp only: log_less_iff)
  ultimately show ?thesis unfolding a b by simp
qed

section \<open>Ingestion: the derived delta columns\<close>

lemma fl64_of_int_exact:
  assumes "\<bar>d\<bar> \<le> 2 ^ 53"
  shows "fl64 (real_of_int d) = real_of_int d"
proof (cases "d = 0")
  case True
  then show ?thesis by (simp add: fl64_def)
next
  case False
  define e where "e = \<lfloor>log 2 \<bar>real_of_int d\<bar>\<rfloor>"
  have nz: "real_of_int d \<noteq> 0" using False by simp
  from binade_exists [OF nz]
  have lo: "2 powi e \<le> \<bar>real_of_int d\<bar>" and hi: "\<bar>real_of_int d\<bar> < 2 powi (e + 1)"
    by (simp_all add: e_def)
  have "1 \<le> \<bar>real_of_int d\<bar>" using False by (simp flip: of_int_abs)
  with hi have "(2::real) powi 0 < 2 powi (e + 1)" by simp
  then have e0: "0 \<le> e"
    using power_int_increasing [of "e + 1" 0 "2::real"] by (cases "e + 1 \<le> 0") auto
  have "\<bar>real_of_int d\<bar> \<le> 2 powi 53" using assms by (simp flip: of_int_abs)
  with lo have "(2::real) powi e \<le> 2 powi 53" by linarith
  then have e53: "e \<le> 53"
    using power_int_strict_increasing [of 53 e "2::real"] by (cases "53 < e") auto
  show ?thesis
  proof (cases "e = 53")
    case True
    with lo assms have "\<bar>real_of_int d\<bar> = 2 ^ 53"
      by (simp flip: of_int_abs)
    then have "\<bar>d\<bar> = 2 ^ 53" by (simp flip: of_int_abs)
    then have "d = 2 ^ 53 \<or> d = - (2 ^ 53)" by (simp only: abs_eq_iff')
    then have d: "d = 2 * (d div 2)" by auto
    have "real_of_int d = real_of_int (d div 2) * 2 powi (e - 52)"
      using True d by simp
    then show ?thesis by (rule fl64_exact [OF lo hi])
  next
    case False
    with e53 have le: "e \<le> 52" by simp
    have "(2::real) powi (e - 52) = 1 / 2 ^ nat (52 - e)"
      using le by (simp add: power_int_def power_one_over)
    then have "real_of_int d = real_of_int (d * 2 ^ nat (52 - e)) * 2 powi (e - 52)"
      by simp
    then show ?thesis by (rule fl64_exact [OF lo hi])
  qed
qed

lemma wrap_int64_id:
  assumes "- (2 ^ 63) \<le> z" and "z < 2 ^ 63"
  shows "wrap_int64 z = z"
proof -
  have "0 \<le> z + 2 ^ 63" and "z + 2 ^ 63 < 2 ^ 64" using assms by simp_all
  then have "(z + 2 ^ 63) mod 2 ^ 64 = z + 2 ^ 63" by (rule mod_pos_pos_trivial)
  then show ?thesis by (simp add: wrap_int64_def)
qed

lemma infer_dtype_bounded:
  assumes "\<forall>x \<in> set xs. 0 \<le> x \<and> x \<le> 2 ^ 53"
  shows "infer_dtype xs = Int64"
proof -
  have "list_all (\<lambda>x. - (2 ^ 63) \<le> x \<and> x < 2 ^ 63) xs"
    unfolding list_all_iff using assms by fastforce
  then show ?thesis by (simp add: infer_dtype_def)
qed

lemma cast_int64_of_int:
  assumes "- (2 ^ 63) \<le> n" and "n < 2 ^ 63"
  shows "cast_int64 t (real_of_int n) = Inr n"
  using assms by (simp add: cast_int64_def Let_def)

lemma astype_int_column_of_int:
  assumes "\<forall>z \<in> set zs. - (2 ^ 63) \<le> z \<and> z < 2 ^ 63"
  shows "astype_int_column t (map real_of_int zs) = Inr zs"
  using assms by (induction zs) (simp_all add: cast_int64_of_int)

lemma clipped_diff_bounded:
  assumes "0 \<le> p" and "p \<le> 2 ^ 53" and "0 \<le> c" and "c \<le> 2 ^ 53"
  shows "(if diff_value Int64 p c < 0 then 0 else diff_value Int64 p c)
         = real_of_int (max 0 (c - p))"
proof -
  have b: "\<bar>c - p\<bar> \<le> 2 ^ 53" using assms by simp
  have "wrap_int64 (c - p) = c - p" using assms by (intro wrap_int64_id) simp_all
  then have "diff_value Int64 p c = real_of_int (c - p)"
    using fl64_of_int_exact [OF b] by (simp add: diff_value_def)
  then show ?thesis by (simp add: max_def)
qed

lemma new_column_bounded_values:
  assumes "\<forall>x \<in> set xs. 0 \<le> x \<and> x \<le> 2 ^ 53"
  shows "clip_lower 0 (fillna 0 (series_diff Int64 xs))
         = map real_of_int (case xs of [] \<Rightarrow> [] | x # rest \<Rightarrow> 0 # map2 (\<lambda>p c. max 0 (c - p)) xs rest)"
proof (cases xs)
  case Nil
  then show ?thesis by (simp add: clip_lower_def fillna_def series_diff_def)
next
  case (Cons x rest)
  have "\<forall>(p, c) \<in> set (zip xs rest).
          (if diff_value Int64 p c < 0 then 0 else diff_value Int64 p c) = real_of_int (max 0 (c - p))"
  proof (clarify)
    fix p c assume pc: "(p, c) \<in> set (zip xs rest)"
    then have "p \<in> set xs" and "c \<in> set xs"
      using Cons by (auto dest: set_zip_leftD set_zip_rightD)
    with assms show "(if diff_value Int64 p c < 0 then 0 else diff_value Int64 p c)
                     = real_of_int (max 0 (c - p))"
      by (intro clipped_diff_bounded) auto
  qed
  then have "map (\<lambda>(p, c). if diff_value Int64 p c < 0 then 0 else diff_value Int64 p c) (zip xs rest)
           = map (\<lambda>(p, c). real_of_int (max 0 (c - p))) (zip xs rest)"
    by (intro map_cong) auto
  then show ?thesis
    by (simp add: Cons clip_lower_def fillna_def series_diff_def split_def comp_def)
qed

lemma length_spec_deltas: "length (spec_deltas xs) = length xs"
  by (simp add: spec_deltas_def)

lemma spec_deltas_nth:
  "i < length xs \<Longrightarrow> spec_deltas xs ! i = (if i = 0 then 0 else max 0 (xs ! i - xs ! (i - 1)))"
  by (simp add: spec_deltas_def)

lemma new_column_bounded:
  assumes "\<forall>x \<in> set xs. 0 \<le> x \<and> x \<le> 2 ^ 53"
  shows "new_column xs = Inr (spec_deltas xs)"
proof -
  let ?zs = "case xs of [] \<Rightarrow> [] | x # rest \<Rightarrow> 0 # map2 (\<lambda>p c. max 0 (c - p)) xs rest"
  have range: "\<forall>z \<in> set ?zs. - (2 ^ 63) \<le> z \<and> z < 2 ^ 63"
  proof (cases xs)
    case Nil
    then show ?thesis by simp
  next
    case (Cons x rest)
    have "\<forall>(p, c) \<in> set (zip xs rest). - (2 ^ 63) \<le> max 0 (c - p) \<and> max 0 (c - p) < 2 ^ 63"
    proof (clarify)
      fix p c assume pc: "(p, c) \<in> set (zip xs rest)"
      then have "p \<in> set xs" and "c \<in> set xs"
        using Cons by (auto dest: set_zip_leftD set_zip_rightD)
      with assms have "0 \<le> p" "c \<le> 2 ^ 53" by auto
      then show "- (2 ^ 63) \<le> max 0 (c - p) \<and> max 0 (c - p) < 2 ^ 63" by simp
    qed
    then show ?thesis by (auto simp: Cons)
  qed
  have zs: "?zs = spec_deltas xs"
  proof (cases xs)
    case Nil
    then show ?thesis by (simp add: spec_deltas_def)
  next
    case (Cons x rest)
    show ?thesis
    proof (rule nth_equalityI)
      show "length ?zs = length (spec_deltas xs)" by (simp add: Cons spec_deltas_def)
    next
      fix i assume "i < length ?zs"
      then have i: "i < length xs" by (simp add: Cons)
      show "?zs ! i = spec_deltas xs ! i"
      proof (cases i)
        case 0
        then show ?thesis using i by (simp add: spec_deltas_nth) (simp add: Cons)
      next
        case (Suc j)
        with i Cons have j: "j < length rest" by simp
        then have jz: "j < length (zip xs rest)" by (simp add: Cons)
        have "?zs ! i = max 0 (rest ! j - xs ! j)"
          using jz j by (simp add: Suc Cons)
        moreover have "spec_deltas xs ! i = max 0 (xs ! Suc j - xs ! j)"
          using i by (simp add: spec_deltas_nth Suc)
        moreover have "xs ! Suc j = rest ! j" by (simp add: Cons)
        ultimately show ?thesis by simp
      qed
    qed
  qed
  show ?thesis
    unfolding new_column_def Let_def infer_dtype_bounded [OF assms] new_column_bounded_values [OF assms]
    using astype_int_column_of_int [OF range] zs by simp
qed

lemma build_df_bounded:
  assumes "\<forall>ob \<in> set rows. 0 \<le> Kasus ob \<and> Kasus ob \<le> 2 ^ 53
                          \<and> 0 \<le> Kematian ob \<and> Kematian ob \<le> 2 ^ 53
                          \<and> 0 \<le> Sembuh ob \<and> Sembuh ob \<le> 2 ^ 53"
  shows "build_df rows =
           Inr (map (\<lambda>(ob, kb, mb, sb).
                       \<lparr>Tanggal = Tanggal ob, Kasus = Kasus ob,
                        Kematian = Kematian ob, Sembuh = Sembuh ob,
                        Kasus_Baru = kb, Kematian_Baru = mb, Sembuh_Baru = sb\<rparr>)
                    (zip (sort_key Tanggal rows)
                       (zip (spec_deltas (map Kasus (sort_key Tanggal rows)))
                          (zip (spec_deltas (map Kematian (sort_key Tanggal rows)))
                               (spec_deltas (map Sembuh (sort_key Tanggal rows)))))))"
proof -
  let ?df = "sort_key Tanggal rows"
  have s: "set ?df = set rows" by simp
  have k: "new_column (map Kasus ?df) = Inr (spec_deltas (map Kasus ?df))"
    using assms by (intro new_column_bounded) (auto simp only: s set_map)
  have m: "new_column (map Kematian ?df) = Inr (spec_deltas (map Kematian ?df))"
    using assms by (intro new_column_bounded) (auto simp only: s set_map)
  have r: "new_column (map Sembuh ?df) = Inr (spec_deltas (map Sembuh ?df))"
    using assms by (intro new_column_bounded) (auto simp only: s set_map)
  show ?thesis
    unfolding build_df_def Let_def k m r by simp
qed

lemma built_rows_nth:
  assumes "i < length obs"
  defines "df \<equiv> map (\<lambda>(ob, kb, mb, sb).
                       \<lparr>Tanggal = Tanggal ob, Kasus = Kasus ob,
                        Kematian = Kematian ob, Sembuh = Sembuh ob,
                        Kasus_Baru = kb, Kematian_Baru = mb, Sembuh_Baru = sb\<rparr>)
                    (zip obs
                       (zip (spec_deltas (map Kasus obs))
                          (zip (spec_deltas (map Kematian obs))
                               (spec_deltas (map Sembuh obs)))))"
  shows "Kasus (df ! i) = Kasus (obs ! i)"
    and "Kematian (df ! i) = Kematian (obs ! i)"
    and "Sembuh (df ! i) = Sembuh (obs ! i)"
    and "Kasus_Baru (df ! i) = spec_deltas (map Kasus obs) ! i"
    and "Kematian_Baru (df ! i) = spec_deltas (map Kematian obs) ! i"
    and "Sembuh_Baru (df ! i) = spec_deltas (map Sembuh obs) ! i"
  using assms(1) by (simp_all add: df_def length_spec_deltas)

lemma data_fixture_df:
  "get_historical_df strptime_fixture gauss_zero (Some data_fixture) =
     Inr [\<lparr>Tanggal = 18283, Kasus = 10, Kematian = 1, Sembuh = 0, Kasus_Baru = 0, Kematian_Baru = 0, Sembuh_Baru = 0\<rparr>,
          \<lparr>Tanggal = 18284, Kasus = 7, Kematian = 1, Sembuh = 0, Kasus_Baru = 0, Kematian_Baru = 0, Sembuh_Baru = 0\<rparr>,
          \<lparr>Tanggal = 18285, Kasus = 12, Kematian = 3, Sembuh = 0, Kasus_Baru = 5, Kematian_Baru = 2, Sembuh_Baru = 0\<rparr>]"
proof -
  let ?rows = "[\<lparr>Tanggal = 18284, Kasus = 7, Kematian = 1, Sembuh = 0\<rparr>,
                \<lparr>Tanggal = 18283, Kasus = 10, Kematian = 1, Sembuh = 0\<rparr>,
                \<lparr>Tanggal = 18285, Kasus = 12, Kematian = 3, Sembuh = 0\<rparr>]"
  have g: "get_historical_df strptime_fixture gauss_zero (Some data_fixture) = build_df ?rows"
    by (simp add: get_historical_df_def data_fixture_def strptime_fixture_def get_count_def Let_def)
  have "\<forall>ob \<in> set ?rows. 0 \<le> Kasus ob \<and> Kasus ob \<le> 2 ^ 53
                          \<and> 0 \<le> Kematian ob \<and> Kematian ob \<le> 2 ^ 53
                          \<and> 0 \<le> Sembuh ob \<and> Sembuh ob \<le> 2 ^ 53"
    by simp
  from build_df_bounded [OF this] show ?thesis
    unfolding g by (simp add: spec_deltas_def upt_rec)
qed

text \<open>
  Claim C1, as amended. In every series built from raw rows whose cumulative
  counts lie between 0 and 2^53, each derived delta column (Kasus_Baru,
  Kematian_Baru, Sembuh_Baru) equals max(0, current - previous) of its
  cumulative column, with 0 in the first row; so every delta is non-negative,
  and where the cumulative value does not decrease the delta is the exact
  difference.
\<close>

theorem daily_deltas_clamped:
  assumes "data = Some d" and "timeline_of d = Some tline"
    and "rows = parse_rows strptime tline (map fst (case tl_cases tline of None \<Rightarrow> [] | Some kvs \<Rightarrow> kvs))"
    and "rows \<noteq> []"
    and "\<forall>ob \<in> set rows. 0 \<le> Kasus ob \<and> Kasus ob \<le> 2 ^ 53
                          \<and> 0 \<le> Kematian ob \<and> Kematian ob \<le> 2 ^ 53
                          \<and> 0 \<le> Sembuh ob \<and> Sembuh ob \<le> 2 ^ 53"
  shows "\<exists>df. get_historical_df strptime gauss data = Inr df \<and> length df = length rows
       \<and> (\<forall>i < length df.
            Kasus_Baru (df ! i) = (if i = 0 then 0 else max 0 (Kasus (df ! i) - Kasus (df ! (i - 1))))
          \<and> Kematian_Baru (df ! i) = (if i = 0 then 0 else max 0 (Kematian (df ! i) - Kematian (df ! (i - 1))))
          \<and> Sembuh_Baru (df ! i) = (if i = 0 then 0 else max 0 (Sembuh (df ! i) - Sembuh (df ! (i - 1))))
          \<and> 0 \<le> Kasus_Baru (df ! i) \<and> 0 \<le> Kematian_Baru (df ! i) \<and> 0 \<le> Sembuh_Baru (df ! i)
          \<and> (0 < i \<and> Kasus (df ! (i - 1)) \<le> Kasus (df ! i) \<longrightarrow>
               Kasus_Baru (df ! i) = Kasus (df ! i) - Kasus (df ! (i - 1)))
          \<and> (0 < i \<and> Kematian (df ! (i - 1)) \<le> Kematian (df ! i) \<longrightarrow>
               Kematian_Baru (df ! i) = Kematian (df ! i) - Kematian (df ! (i - 1)))
          \<and> (0 < i \<and> Sembuh (df ! (i - 1)) \<le> Sembuh (df ! i) \<longrightarrow>
               Sembuh_Baru (df ! i) = Sembuh (df ! i) - Sembuh (df ! (i - 1))))"
proof -
  let ?obs = "sort_key Tanggal rows"
  let ?df = "map (\<lambda>(ob, kb, mb, sb).
                       \<lparr>Tanggal = Tanggal ob, Kasus = Kasus ob,
                        Kematian = Kematian ob, Sembuh = Sembuh ob,
                        Kasus_Baru = kb, Kematian_Baru = mb, Sembuh_Baru = sb\<rparr>)
                    (zip ?obs
                       (zip (spec_deltas (map Kasus ?obs))
                          (zip (spec_deltas (map Kematian ?obs))
                               (spec_deltas (map Sembuh ?obs)))))"
  have b: "build_df rows = Inr ?df" using assms(5) by (rule build_df_bounded)
  have g: "get_historical_df strptime gauss data = Inr ?df"
    using assms(1,2,4) b by (simp add: get_historical_df_def Let_def assms(3) [symmetric])
  have l: "length ?df = length rows" by (simp add: length_spec_deltas)
  have "\<forall>i < length ?df.
            Kasus_Baru (?df ! i) = (if i = 0 then 0 else max 0 (Kasus (?df ! i) - Kasus (?df ! (i - 1))))
          \<and> Kematian_Baru (?df ! i) = (if i = 0 then 0 else max 0 (Kematian (?df ! i) - Kematian (?df ! (i - 1))))
          \<and> Sembuh_Baru (?df ! i) = (if i = 0 then 0 else max 0 (Sembuh (?df ! i) - Sembuh (?df ! (i - 1))))
          \<and> 0 \<le> Kasus_Baru (?df ! i) \<and> 0 \<le> Kematian_Baru (?df ! i) \<and> 0 \<le> Sembuh_Baru (?df ! i)
          \<and> (0 < i \<and> Kasus (?df ! (i - 1)) \<le> Kasus (?df ! i) \<longrightarrow>
               Kasus_Baru (?df ! i) = Kasus (?df ! i) - Kasus (?df ! (i - 1)))
          \<and> (0 < i \<and> Kematian (?df ! (i - 1)) \<le> Kematian (?df ! i) \<longrightarrow>
               Kematian_Baru (?df ! i) = Kematian (?df ! i) - Kematian (?df ! (i - 1)))
          \<and> (0 < i \<and> Sembuh (?df ! (i - 1)) \<le> Sembuh (?df ! i) \<longrightarrow>
               Sembuh_Baru (?df ! i) = Sembuh (?df ! i) - Sembuh (?df ! (i - 1)))"
  proof (intro allI impI)
    fix i assume "i < length ?df"
    with l have i: "i < length ?obs" by simp
    then have i': "i - Suc 0 < length ?obs" by simp
    note n = built_rows_nth [OF i] built_rows_nth [OF i']
    have k: "Kasus_Baru (?df ! i) = (if i = 0 then 0 else max 0 (Kasus (?df ! i) - Kasus (?df ! (i - 1))))"
      using i i' by (simp add: n spec_deltas_nth)
    have m: "Kematian_Baru (?df ! i) = (if i = 0 then 0 else max 0 (Kematian (?df ! i) - Kematian (?df ! (i - 1))))"
      using i i' by (simp add: n spec_deltas_nth)
    have s: "Sembuh_Baru (?df ! i) = (if i = 0 then 0 else max 0 (Sembuh (?df ! i) - Sembuh (?df ! (i - 1))))"
      using i i' by (simp add: n spec_deltas_nth)
    show "Kasus_Baru (?df ! i) = (if i = 0 then 0 else max 0 (Kasus (?df ! i) - Kasus (?df ! (i - 1))))
          \<and> Kematian_Baru (?df ! i) = (if i = 0 then 0 else max 0 (Kematian (?df ! i) - Kematian (?df ! (i - 1))))
          \<and> Sembuh_Baru (?df ! i) = (if i = 0 then 0 else max 0 (Sembuh (?df ! i) - Sembuh (?df ! (i - 1))))
          \<and> 0 \<le> Kasus_Baru (?df ! i) \<and> 0 \<le> Kematian_Baru (?df ! i) \<and> 0 \<le> Sembuh_Baru (?df ! i)
          \<and> (0 < i \<and> Kasus (?df ! (i - 1)) \<le> Kasus (?df ! i) \<longrightarrow>
               Kasus_Baru (?df ! i) = Kasus (?df ! i) - Kasus (?df ! (i - 1)))
          \<and> (0 < i \<and> Kematian (?df ! (i - 1)) \<le> Kematian (?df ! i) \<longrightarrow>
               Kematian_Baru (?df ! i) = Kematian (?df ! i) - Kematian (?df ! (i - 1)))
          \<and> (0 < i \<and> Sembuh (?df ! (i - 1)) \<le> Sembuh (?df ! i) \<longrightarrow>
               Sembuh_Baru (?df ! i) = Sembuh (?df ! i) - Sembuh (?df ! (i - 1)))"
      unfolding k m s by (simp add: max_def)
  qed
  with g l show ?thesis by blast
qed

theorem daily_deltas_clamped_witness:
  "timeline_of data_fixture = Some
        \<lparr>tl_cases = Some [(''1/23/20'', 7), (''1/22/20'', 10), (''bad'', 99), (''1/24/20'', 12)],
         tl_deaths = Some [(''1/22/20'', 1), (''1/23/20'', 1), (''1/24/20'', 3)],
         tl_recovered = None\<rparr>
   \<and> get_historical_df strptime_fixture gauss_zero (Some data_fixture) =
     Inr [\<lparr>Tanggal = 18283, Kasus = 10, Kematian = 1, Sembuh = 0, Kasus_Baru = 0, Kematian_Baru = 0, Sembuh_Baru = 0\<rparr>,
          \<lparr>Tanggal = 18284, Kasus = 7, Kematian = 1, Sembuh = 0, Kasus_Baru = 0, Kematian_Baru = 0, Sembuh_Baru = 0\<rparr>,
          \<lparr>Tanggal = 18285, Kasus = 12, Kematian = 3, Sembuh = 0, Kasus_Baru = 5, Kematian_Baru = 2, Sembuh_Baru = 0\<rparr>]
   \<and> (0::int) = max 0 (7 - 10) \<and> (5::int) = 12 - 7"
proof -
  let ?tl = "\<lparr>tl_cases = Some [(''1/23/20'', 7), (''1/22/20'', 10), (''bad'', 99), (''1/24/20'', 12)],
         tl_deaths = Some [(''1/22/20'', 1), (''1/23/20'', 1), (''1/24/20'', 3)],
         tl_recovered = None\<rparr>"
  let ?rows = "[\<lparr>Tanggal = 18284, Kasus = 7, Kematian = 1, Sembuh = 0\<rparr>,
                \<lparr>Tanggal = 18283, Kasus = 10, Kematian = 1, Sembuh = 0\<rparr>,
                \<lparr>Tanggal = 18285, Kasus = 12, Kematian = 3, Sembuh = 0\<rparr>]"
  have tl: "timeline_of data_fixture = Some ?tl"
    by (simp add: data_fixture_def)
  have rows: "?rows = parse_rows strptime_fixture ?tl
                 (map fst (case tl_cases ?tl of None \<Rightarrow> [] | Some kvs \<Rightarrow> kvs))"
    by (simp add: strptime_fixture_def get_count_def)
  have ne: "?rows \<noteq> []" by simp
  have bd: "\<forall>ob \<in> set ?rows. 0 \<le> Kasus ob \<and> Kasus ob \<le> 2 ^ 53
                          \<and> 0 \<le> Kematian ob \<and> Kematian ob \<le> 2 ^ 53
                          \<and> 0 \<le> Sembuh ob \<and> Sembuh ob \<le> 2 ^ 53"
    by simp
  from daily_deltas_clamped [OF refl tl rows ne bd, of gauss_zero] data_fixture_df tl
  show ?thesis by simp
qed

text \<open>
  Beyond 2^53 the float64 that \<^verbatim>\<open>diff()\<close> stores is no longer the difference, and
  a float64 of 2^63 does not fit the int64 that \<^verbatim>\<open>astype(int)\<close> produces.
\<close>

lemma fl64_zero: "fl64 0 = 0"
  by (simp add: fl64_def)

lemma fl64_2_53_plus_1: "fl64 9007199254740993 = 9007199254740992"
proof -
  have "fl64 9007199254740993
      = real_of_int (round_half_even (9007199254740993 / 2 powi (53 - 52))) * 2 powi (53 - 52)"
    by (rule fl64_binade) simp_all
  also have "\<dots> = 9007199254740992"
    by (simp add: round_half_even_def Let_def)
  finally show ?thesis .
qed

lemma fl64_2_63_minus_1: "fl64 9223372036854775807 = 9223372036854775808"
proof -
  have "fl64 9223372036854775807
      = real_of_int (round_half_even (9223372036854775807 / 2 powi (62 - 52))) * 2 powi (62 - 52)"
    by (rule fl64_binade) simp_all
  also have "\<dots> = 9223372036854775808"
    by (simp add: round_half_even_def Let_def)
  finally show ?thesis .
qed

lemma new_column_rise_2_53_plus_1: "new_column [0, 9007199254740993] = Inr [0, 9007199254740992]"
  by (simp add: new_column_def infer_dtype_def series_diff_def diff_value_def wrap_int64_def
      fillna_def clip_lower_def cast_int64_def Let_def fl64_2_53_plus_1)

lemma new_column_rise_2_63_minus_1:
  "new_column [0, 9223372036854775807] = Inr [0, - 9223372036854775808]"
  by (simp add: new_column_def infer_dtype_def series_diff_def diff_value_def wrap_int64_def
      fillna_def clip_lower_def cast_int64_def Let_def fl64_2_63_minus_1)

lemma new_column_zeros: "new_column [0, 0] = Inr [0, 0]"
  by (simp add: new_column_def infer_dtype_def series_diff_def diff_value_def wrap_int64_def
      fillna_def clip_lower_def cast_int64_def Let_def fl64_zero)

text \<open>
  Claim C1 as stated fails on a payload with large counts: both columns are
  non-decreasing, yet the case delta for a rise of 2^53 + 1 is 2^53, not the
  difference, and the death delta for a rise of 2^63 - 1 is -2^63, negative.
\<close>

theorem daily_deltas_large_counts_counterexample:
  "get_historical_df strptime_fixture gauss_zero (Some data_large) =
     Inr [\<lparr>Tanggal = 18283, Kasus = 0, Kematian = 0, Sembuh = 0,
           Kasus_Baru = 0, Kematian_Baru = 0, Sembuh_Baru = 0\<rparr>,
          \<lparr>Tanggal = 18284, Kasus = 9007199254740993, Kematian = 9223372036854775807, Sembuh = 0,
           Kasus_Baru = 9007199254740992, Kematian_Baru = - 9223372036854775808, Sembuh_Baru = 0\<rparr>]
   \<and> (9007199254740992 :: int) \<noteq> max 0 (9007199254740993 - 0)
   \<and> (- 9223372036854775808 :: int) < 0"
  by (simp add: get_historical_df_def data_large_def strptime_fixture_def get_count_def Let_def
      build_df_def new_column_rise_2_53_plus_1 new_column_rise_2_63_minus_1 new_column_zeros)

section \<open>Filtering by date range\<close>

lemma column_of_Tanggal: "column_of ''Tanggal'' = Some Tanggal"
  by (simp add: column_of_def)

lemma filter_by_date_range_as_filter:
  "filter_by_date_range df start_date end_date ''Tanggal'' =
     Inr (filter (\<lambda>r. (case start_date of None \<Rightarrow> True | Some s \<Rightarrow> s \<le> Tanggal r)
                     \<and> (case end_date of None \<Rightarrow> True | Some e \<Rightarrow> Tanggal r \<le> e)) df)"
  by (cases start_date; cases end_date)
     (simp_all add: filter_by_date_range_def column_of_Tanggal)

lemma filter_full_range:
  assumes "df \<noteq> []"
  shows "filter_by_date_range df (Some (Min (Tanggal ` set df))) (Some (Max (Tanggal ` set df))) ''Tanggal'' = Inr df"
proof -
  have "\<forall>r \<in> set df. Min (Tanggal ` set df) \<le> Tanggal r \<and> Tanggal r \<le> Max (Tanggal ` set df)"
    by simp
  then have "filter (\<lambda>r. Min (Tanggal ` set df) \<le> Tanggal r \<and> Tanggal r \<le> Max (Tanggal ` set df)) df = df"
    by (simp add: filter_id_conv)
  then show ?thesis
    by (simp add: filter_by_date_range_as_filter)
qed

text \<open>
  Claim C6. filter_by_date_range (on the date column Tanggal) keeps exactly the
  rows whose date lies in the inclusive range [start, end], an omitted bound
  being no bound; when no row qualifies the result is the empty frame, not an
  error; and filtering a frame to its own minimum and maximum date returns the
  frame unchanged, row for row.
\<close>

theorem filter_by_date_range_inclusive:
  "filter_by_date_range df start_date end_date ''Tanggal'' =
     Inr (filter (\<lambda>r. (case start_date of None \<Rightarrow> True | Some s \<Rightarrow> s \<le> Tanggal r)
                     \<and> (case end_date of None \<Rightarrow> True | Some e \<Rightarrow> Tanggal r \<le> e)) df)
   \<and> ((\<forall>r \<in> set df. \<not> ((case start_date of None \<Rightarrow> True | Some s \<Rightarrow> s \<le> Tanggal r)
                     \<and> (case end_date of None \<Rightarrow> True | Some e \<Rightarrow> Tanggal r \<le> e))) \<longrightarrow>
        filter_by_date_range df start_date end_date ''Tanggal'' = Inr [])
   \<and> (df \<noteq> [] \<longrightarrow>
        filter_by_date_range df (Some (Min (Tanggal ` set df))) (Some (Max (Tanggal ` set df))) ''Tanggal'' = Inr df)"
proof (intro conjI impI)
  show "filter_by_date_range df start_date end_date ''Tanggal'' =
     Inr (filter (\<lambda>r. (case start_date of None \<Rightarrow> True | Some s \<Rightarrow> s \<le> Tanggal r)
                     \<and> (case end_date of None \<Rightarrow> True | Some e \<Rightarrow> Tanggal r \<le> e)) df)"
    by (rule filter_by_date_range_as_filter)
next
  assume "\<forall>r \<in> set df. \<not> ((case start_date of None \<Rightarrow> True | Some s \<Rightarrow> s \<le> Tanggal r)
                     \<and> (case end_date of None \<Rightarrow> True | Some e \<Rightarrow> Tanggal r \<le> e))"
  then have "filter (\<lambda>r. (case start_date of None \<Rightarrow> True | Some s \<Rightarrow> s \<le> Tanggal r)
                     \<and> (case end_date of None \<Rightarrow> True | Some e \<Rightarrow> Tanggal r \<le> e)) df = []"
    by (simp add: filter_empty_conv)
  then show "filter_by_date_range df start_date end_date ''Tanggal'' = Inr []"
    by (simp add: filter_by_date_range_as_filter)
next
  assume "df \<noteq> []"
  then show "filter_by_date_range df (Some (Min (Tanggal ` set df))) (Some (Max (Tanggal ` set df))) ''Tanggal'' = Inr df"
    by (rule filter_full_range)
qed

theorem filter_by_date_range_inclusive_witness:
  "filter_by_date_range df_fixture (Some 18284) (Some 18285) ''Tanggal'' =
     Inr [\<lparr>Tanggal = 18284, Kasus = 17, Kematian = 1, Sembuh = 0, Kasus_Baru = 7, Kematian_Baru = 0, Sembuh_Baru = 0\<rparr>,
          \<lparr>Tanggal = 18285, Kasus = 22, Kematian = 3, Sembuh = 0, Kasus_Baru = 5, Kematian_Baru = 2, Sembuh_Baru = 0\<rparr>]
   \<and> filter_by_date_range df_fixture (Some 18290) None ''Tanggal'' = Inr []
   \<and> df_fixture \<noteq> []
   \<and> filter_by_date_range df_fixture (Some 18283) (Some 18286) ''Tanggal'' = Inr df_fixture"
  using filter_by_date_range_inclusive [of df_fixture "Some 18284" "Some 18285"]
        filter_by_date_range_inclusive [of df_fixture "Some 18290" None]
  by (simp add: df_fixture_def)

section \<open>Peak lookup\<close>

lemma argmax_scan_first_max:
  assumes "length ps = i" and "best < i" and "ps ! best = bv"
    and "\<forall>j<i. ps ! j \<le> bv" and "\<forall>j<best. ps ! j < bv"
  shows "argmax_scan best bv i xs < i + length xs
       \<and> (\<forall>j < i + length xs. (ps @ xs) ! j \<le> (ps @ xs) ! argmax_scan best bv i xs)
       \<and> (\<forall>j < argmax_scan best bv i xs. (ps @ xs) ! j < (ps @ xs) ! argmax_scan best bv i xs)"
  using assms
proof (induction xs arbitrary: best bv i ps)
  case Nil
  then show ?case by simp
next
  case (Cons x xs)
  show ?case
  proof (cases "bv < x")
    case True
    have "argmax_scan i x (Suc i) xs < Suc i + length xs
       \<and> (\<forall>j < Suc i + length xs. ((ps @ [x]) @ xs) ! j \<le> ((ps @ [x]) @ xs) ! argmax_scan i x (Suc i) xs)
       \<and> (\<forall>j < argmax_scan i x (Suc i) xs. ((ps @ [x]) @ xs) ! j < ((ps @ [x]) @ xs) ! argmax_scan i x (Suc i) xs)"
    proof (rule Cons.IH)
      show "length (ps @ [x]) = Suc i" using Cons.prems(1) by simp
      show "i < Suc i" by simp
      show "(ps @ [x]) ! i = x" using Cons.prems(1) by (auto simp: nth_append)
      show "\<forall>j<Suc i. (ps @ [x]) ! j \<le> x"
        using Cons.prems(1,4) True by (auto simp: nth_append less_Suc_eq)
      show "\<forall>j<i. (ps @ [x]) ! j < x"
        using Cons.prems(1,4) True by (auto simp: nth_append)
    qed
    with True show ?thesis by simp
  next
    case False
    have "argmax_scan best bv (Suc i) xs < Suc i + length xs
       \<and> (\<forall>j < Suc i + length xs. ((ps @ [x]) @ xs) ! j \<le> ((ps @ [x]) @ xs) ! argmax_scan best bv (Suc i) xs)
       \<and> (\<forall>j < argmax_scan best bv (Suc i) xs. ((ps @ [x]) @ xs) ! j < ((ps @ [x]) @ xs) ! argmax_scan best bv (Suc i) xs)"
    proof (rule Cons.IH)
      show "length (ps @ [x]) = Suc i" using Cons.prems(1) by simp
      show "best < Suc i" using Cons.prems(2) by simp
      show "(ps @ [x]) ! best = bv" using Cons.prems(1,2,3) by (simp add: nth_append)
      show "\<forall>j<Suc i. (ps @ [x]) ! j \<le> bv"
        using Cons.prems(1,4) False by (auto simp: nth_append less_Suc_eq)
      show "\<forall>j<best. (ps @ [x]) ! j < bv"
        using Cons.prems(1,2,5) by (auto simp: nth_append)
    qed
    with False show ?thesis by simp
  qed
qed

lemma idxmax_first_max:
  assumes "xs \<noteq> []"
  shows "\<exists>i. idxmax xs = Inr i \<and> i < length xs
           \<and> (\<forall>j < length xs. xs ! j \<le> xs ! i) \<and> (\<forall>j < i. xs ! j < xs ! i)"
proof -
  from assms obtain x rest where xs: "xs = x # rest" by (cases xs) auto
  have "argmax_scan 0 x 1 rest < 1 + length rest
       \<and> (\<forall>j < 1 + length rest. ([x] @ rest) ! j \<le> ([x] @ rest) ! argmax_scan 0 x 1 rest)
       \<and> (\<forall>j < argmax_scan 0 x 1 rest. ([x] @ rest) ! j < ([x] @ rest) ! argmax_scan 0 x 1 rest)"
    by (rule argmax_scan_first_max) simp_all
  then show ?thesis by (simp add: xs idxmax_def)
qed

text \<open>
  Claim C10. For a non-empty frame that has the requested column, peak_info
  returns the date and value of the first row among those that attain the
  column's maximum: no row exceeds it and every earlier row is strictly smaller.
\<close>

theorem peak_info_first_maximum:
  assumes "df \<noteq> []" and "column_of column = Some f"
  shows "\<exists>i < length df.
           get_peak_info df column ''Tanggal'' =
             Inr \<lparr>peak_date = Some (Tanggal (df ! i)), peak_value = f (df ! i)\<rparr>
         \<and> (\<forall>j < length df. f (df ! j) \<le> f (df ! i))
         \<and> (\<forall>j < i. f (df ! j) < f (df ! i))"
proof -
  from assms(1) have "map f df \<noteq> []" by simp
  from idxmax_first_max [OF this] obtain i where
    i: "idxmax (map f df) = Inr i" "i < length df"
       "\<forall>j < length df. map f df ! j \<le> map f df ! i" "\<forall>j < i. map f df ! j < map f df ! i"
    by auto
  have "get_peak_info df column ''Tanggal'' =
             Inr \<lparr>peak_date = Some (Tanggal (df ! i)), peak_value = f (df ! i)\<rparr>"
    using assms i(1) by (simp add: get_peak_info_def column_of_Tanggal Let_def)
  moreover have "\<forall>j < length df. f (df ! j) \<le> f (df ! i)"
    using i(2,3) by simp
  moreover have "\<forall>j < i. f (df ! j) < f (df ! i)"
    using i(2,4) by simp
  ultimately show ?thesis using i(2) by blast
qed

lemma peak_fixture: "get_peak_info df_fixture ''Kasus_Baru'' ''Tanggal'' = Inr \<lparr>peak_date = Some 18284, peak_value = 7\<rparr>"
  by (simp add: get_peak_info_def df_fixture_def column_of_def idxmax_def)

theorem peak_info_first_maximum_witness:
  "df_fixture \<noteq> [] \<and> column_of ''Kasus_Baru'' = Some Kasus_Baru
   \<and> get_peak_info df_fixture ''Kasus_Baru'' ''Tanggal'' = Inr \<lparr>peak_date = Some 18284, peak_value = 7\<rparr>
   \<and> (\<exists>i < length df_fixture.
           get_peak_info df_fixture ''Kasus_Baru'' ''Tanggal'' =
             Inr \<lparr>peak_date = Some (Tanggal (df_fixture ! i)), peak_value = Kasus_Baru (df_fixture ! i)\<rparr>
         \<and> (\<forall>j < length df_fixture. Kasus_Baru (df_fixture ! j) \<le> Kasus_Baru (df_fixture ! i))
         \<and> (\<forall>j < i. Kasus_Baru (df_fixture ! j) < Kasus_Baru (df_fixture ! i)))"
proof -
  have ne: "df_fixture \<noteq> []" by (simp add: df_fixture_def)
  have col: "column_of ''Kasus_Baru'' = Some Kasus_Baru" by (simp add: column_of_def)
  show ?thesis
    using peak_info_first_maximum [OF ne col] ne col peak_fixture by simp
qed

section \<open>Rolling average\<close>

lemma sum_list_take_drop:
  assumes "k + n \<le> length xs"
  shows "sum_list (take n (drop k xs)) = (\<Sum>j = k..<k + n. (xs ! j :: int))"
proof -
  have len: "length (take n (drop k xs)) = n" using assms by simp
  have "sum_list (take n (drop k xs)) = (\<Sum>j = 0..<n. take n (drop k xs) ! j)"
    using sum_list_sum_nth [of "take n (drop k xs)"] len by simp
  also have "\<dots> = (\<Sum>j = 0..<n. xs ! (k + j))"
    using assms by (intro sum.cong) simp_all
  also have "\<dots> = (\<Sum>j = k..<k + n. xs ! j)"
    using sum.shift_bounds_nat_ivl [of "\<lambda>j. xs ! j" 0 k n] by (simp add: add.commute)
  finally show ?thesis .
qed

lemma length_rolling_window:
  assumes "i < length xs" and "0 < w"
  shows "length (rolling_window w i xs) = min w (Suc i)"
  using assms by (auto simp: rolling_window_def min_def)

lemma sum_list_rolling_window:
  assumes "i < length xs" and "0 < w"
  shows "sum_list (rolling_window w i xs) = (\<Sum>j = Suc i - w..i. xs ! j)"
proof -
  have "(Suc i - w) + (Suc i - (Suc i - w)) \<le> length xs" using assms by auto
  then have "sum_list (rolling_window w i xs) = (\<Sum>j = Suc i - w..<(Suc i - w) + (Suc i - (Suc i - w)). xs ! j)"
    unfolding rolling_window_def by (rule sum_list_take_drop)
  moreover have "(Suc i - w) + (Suc i - (Suc i - w)) = Suc i" by auto
  ultimately show ?thesis by (simp add: atLeastLessThanSuc_atLeastAtMost)
qed

lemma rolling_mean_nth:
  assumes "i < length xs" and "0 < w"
  shows "rolling_mean w 1 xs ! i = Some (real_of_int (\<Sum>j = Suc i - w..i. xs ! j) / real (min w (Suc i)))"
proof -
  have l: "length (rolling_window w i xs) = min w (Suc i)"
    using assms by (rule length_rolling_window)
  then have ne: "rolling_window w i xs \<noteq> []" using assms(2) by auto
  show ?thesis
    using assms ne l by (simp add: rolling_mean_def Let_def series_mean_def sum_list_rolling_window)
qed

lemma rolling_fixture:
  "calculate_rolling_average (take 3 df_fixture) ''Kasus_Baru'' 7 = Inr [Some 0, Some (7 / 2), Some 4]"
  by (simp add: calculate_rolling_average_def column_of_def is_datetime_column_def df_fixture_def
      rolling_mean_def rolling_window_def series_mean_def Let_def upt_rec)

text \<open>
  Claim C2, as amended. For every frame, every integer column of it and every
  window W >= 1, rolling_average returns one value per row, the mean of the last
  min(W, i+1) values up to row i: never NaN and never an error. For every window
  W < 1 the call fails, with the ValueError that pandas raises because
  min_periods = 1 exceeds the window; the window is not clamped.
\<close>

theorem rolling_average_trailing_mean:
  assumes "column_of column = Some f" and "\<not> is_datetime_column column"
  shows "(1 \<le> window \<longrightarrow>
           (\<exists>ys. calculate_rolling_average df column window = Inr ys
                 \<and> length ys = length df
                 \<and> (\<forall>i < length df.
                       ys ! i = Some (real_of_int (\<Sum>j = Suc i - nat window..i. f (df ! j))
                                        / real (min (nat window) (Suc i))))))
       \<and> (window < 1 \<longrightarrow> calculate_rolling_average df column window = Inl ValueError)"
proof (intro conjI impI)
  assume w: "1 \<le> window"
  let ?ys = "rolling_mean (nat window) 1 (map f df)"
  have "calculate_rolling_average df column window = Inr ?ys"
    using assms w by (simp add: calculate_rolling_average_def)
  moreover have "length ?ys = length df" by (simp add: rolling_mean_def)
  moreover have "\<forall>i < length df.
      ?ys ! i = Some (real_of_int (\<Sum>j = Suc i - nat window..i. f (df ! j)) / real (min (nat window) (Suc i)))"
  proof (intro allI impI)
    fix i assume i: "i < length df"
    then have "i < length (map f df)" by simp
    moreover have "0 < nat window" using w by simp
    ultimately have "?ys ! i = Some (real_of_int (\<Sum>j = Suc i - nat window..i. map f df ! j) / real (min (nat window) (Suc i)))"
      by (rule rolling_mean_nth)
    moreover have "(\<Sum>j = Suc i - nat window..i. map f df ! j) = (\<Sum>j = Suc i - nat window..i. f (df ! j))"
      using i by (intro sum.cong) simp_all
    ultimately show "?ys ! i = Some (real_of_int (\<Sum>j = Suc i - nat window..i. f (df ! j)) / real (min (nat window) (Suc i)))"
      by simp
  qed
  ultimately show "\<exists>ys. calculate_rolling_average df column window = Inr ys
                 \<and> length ys = length df
                 \<and> (\<forall>i < length df.
                       ys ! i = Some (real_of_int (\<Sum>j = Suc i - nat window..i. f (df ! j))
                                        / real (min (nat window) (Suc i))))"
    by blast
next
  assume "window < 1"
  then show "calculate_rolling_average df column window = Inl ValueError"
    using assms by (simp add: calculate_rolling_average_def)
qed

theorem rolling_average_trailing_mean_witness:
  "column_of ''Kasus_Baru'' = Some Kasus_Baru \<and> \<not> is_datetime_column ''Kasus_Baru'' \<and> (1::int) \<le> 7
   \<and> calculate_rolling_average (take 3 df_fixture) ''Kasus_Baru'' 7 = Inr [Some 0, Some (7 / 2), Some 4]
   \<and> (0::int) < 1
   \<and> calculate_rolling_average (take 3 df_fixture) ''Kasus_Baru'' 0 = Inl ValueError"
proof -
  have col: "column_of ''Kasus_Baru'' = Some Kasus_Baru" by (simp add: column_of_def)
  have num: "\<not> is_datetime_column ''Kasus_Baru''" by (simp add: is_datetime_column_def)
  show ?thesis
    using rolling_average_trailing_mean [OF col num, of 0 "take 3 df_fixture"]
          rolling_average_trailing_mean [OF col num, of 7 "take 3 df_fixture"] col num rolling_fixture
    by simp
qed

text \<open>
  Claim C2 as stated fails at W = 0: the error raised is pandas' ValueError, not
  an InvalidWindowError.
\<close>

theorem rolling_average_invalid_window_counterexample:
  "calculate_rolling_average df_fixture ''Kasus_Baru'' 0 = Inl ValueError
   \<and> calculate_rolling_average df_fixture ''Kasus_Baru'' 0 \<noteq> Inl InvalidWindowError"
  by (simp add: calculate_rolling_average_def column_of_def)

text \<open>On the date column the mean is refused, for every window W >= 1.\<close>

lemma rolling_average_datetime_column:
  "1 \<le> window \<Longrightarrow> calculate_rolling_average df ''Tanggal'' window = Inl DataError"
  by (simp add: calculate_rolling_average_def column_of_def is_datetime_column_def)

section \<open>R0 estimate and trend direction\<close>

lemma window_halves:
  assumes "0 < n" and "2 * n \<le> int (length df)"
  shows "df_tail (n * 2) df = drop (length df - nat (2 * n)) df"
    and "length (df_tail (n * 2) df) = nat (2 * n)"
    and "df_head n (df_tail (n * 2) df) = take (nat n) (drop (length df - nat (2 * n)) df)"
    and "df_tail n (df_tail (n * 2) df) = drop (nat n) (drop (length df - nat (2 * n)) df)"
    and "length (take (nat n) (drop (length df - nat (2 * n)) df)) = nat n"
    and "length (drop (nat n) (drop (length df - nat (2 * n)) df)) = nat n"
proof -
  define k where "k = nat n"
  have k: "0 < k" "2 * k \<le> length df" "nat (2 * n) = 2 * k"
    using assms by (simp_all add: k_def nat_mult_distrib)
  have n: "n \<noteq> 0" "0 < n" "0 \<le> n" "n * 2 \<noteq> 0" "0 < n * 2" using assms(1) by simp_all
  have m: "nat (n * 2) = 2 * k" using k(3) by (simp add: mult.commute)
  show t: "df_tail (n * 2) df = drop (length df - nat (2 * n)) df"
    unfolding df_tail_def using n by (simp only: if_True if_False m k(3))
  have l: "length (drop (length df - 2 * k) df) = 2 * k"
    using k(2) by simp
  then show "length (df_tail (n * 2) df) = nat (2 * n)"
    unfolding t k(3) .
  show "df_head n (df_tail (n * 2) df) = take (nat n) (drop (length df - nat (2 * n)) df)"
    unfolding t df_head_def using n by (simp only: if_True)
  have "length (drop (length df - 2 * k) df) - k = k"
    unfolding l by simp
  then show "df_tail n (df_tail (n * 2) df) = drop (nat n) (drop (length df - nat (2 * n)) df)"
    unfolding t k(3) unfolding df_tail_def k_def [symmetric] using n by (simp only: if_True if_False)
  show "length (take (nat n) (drop (length df - nat (2 * n)) df)) = nat n"
    unfolding k(3) k_def [symmetric] using l by simp
  show "length (drop (nat n) (drop (length df - nat (2 * n)) df)) = nat n"
    unfolding k(3) k_def [symmetric] using l by simp
qed

lemma series_mean_fixed_length:
  assumes "length xs = nat n" and "0 < n"
  shows "series_mean xs = Some (real_of_int (sum_list xs) / real_of_int n)"
proof -
  from assms have "xs \<noteq> []" by auto
  moreover have "real (length xs) = real_of_int n" using assms by simp
  ultimately show ?thesis by (simp add: series_mean_def)
qed

lemma float_pow_one: "float_pow x 1 = x"
  by (simp add: float_pow_def)

text \<open>
  Claim C3. With a generation time G >= 1: for every series with fewer than 2G
  rows r0_estimate returns exactly 1.0 whatever the rows hold; otherwise it takes
  the last 2G rows, returns 1.0 if the mean of Kasus_Baru over their first G rows
  is <= 0, and otherwise returns mean(second half) / mean(first half) clamped
  into [0.1, 10.0], the exponent G/G being 1.
\<close>

theorem r0_estimate_cases:
  assumes "0 < G"
  shows "(int (length df) < 2 * G \<longrightarrow> calculate_r0_estimate df G = Inr 1)
       \<and> (2 * G \<le> int (length df) \<longrightarrow>
            (let recent = drop (length df - nat (2 * G)) df;
                 first_mean = real_of_int (sum_list (map Kasus_Baru (take (nat G) recent))) / real_of_int G;
                 second_mean = real_of_int (sum_list (map Kasus_Baru (drop (nat G) recent))) / real_of_int G
             in calculate_r0_estimate df G =
                  Inr (if first_mean \<le> 0 then 1 else max (1 / 10) (min 10 (second_mean / first_mean)))))"
proof (intro conjI impI)
  assume "int (length df) < 2 * G"
  then show "calculate_r0_estimate df G = Inr 1"
    by (simp add: calculate_r0_estimate_def mult.commute)
next
  assume len: "2 * G \<le> int (length df)"
  let ?recent = "drop (length df - nat (2 * G)) df"
  let ?a = "map Kasus_Baru (take (nat G) ?recent)"
  let ?b = "map Kasus_Baru (drop (nat G) ?recent)"
  have a: "series_mean ?a = Some (real_of_int (sum_list ?a) / real_of_int G)"
    using window_halves(5) [OF assms len] assms by (intro series_mean_fixed_length) simp_all
  have b: "series_mean ?b = Some (real_of_int (sum_list ?b) / real_of_int G)"
    using window_halves(6) [OF assms len] assms by (intro series_mean_fixed_length) simp_all
  have nlt: "\<not> int (length df) < G * 2" using len by simp
  have g: "real_of_int G / real_of_int G = 1" using assms by simp
  have gz: "(G = 0) = False" using assms by simp
  have "calculate_r0_estimate df G =
          (if real_of_int (sum_list ?a) / real_of_int G \<le> 0 then Inr 1
           else Inr (max (1 / 10) (min 10 ((real_of_int (sum_list ?b) / real_of_int G)
                                          / (real_of_int (sum_list ?a) / real_of_int G)))))"
    unfolding calculate_r0_estimate_def Let_def
      window_halves(3) [OF assms len] window_halves(4) [OF assms len] a b g float_pow_one
    by (simp only: nlt gz if_False option.case prod.case)
  also have "\<dots> =
          Inr (if real_of_int (sum_list ?a) / real_of_int G \<le> 0 then 1
               else max (1 / 10) (min 10 ((real_of_int (sum_list ?b) / real_of_int G)
                                          / (real_of_int (sum_list ?a) / real_of_int G))))"
    by (rule if_distrib [symmetric])
  finally show "let recent = drop (length df - nat (2 * G)) df;
                 first_mean = real_of_int (sum_list (map Kasus_Baru (take (nat G) recent))) / real_of_int G;
                 second_mean = real_of_int (sum_list (map Kasus_Baru (drop (nat G) recent))) / real_of_int G
             in calculate_r0_estimate df G =
                  Inr (if first_mean \<le> 0 then 1 else max (1 / 10) (min 10 (second_mean / first_mean)))"
    unfolding Let_def .
qed

theorem r0_estimate_cases_witness:
  "(0::int) < 2 \<and> 2 * 2 \<le> int (length df_fixture)
   \<and> calculate_r0_estimate df_fixture 2 = Inr (12 / 7)
   \<and> (0::int) < 5 \<and> int (length df_fixture) < 2 * 5
   \<and> calculate_r0_estimate df_fixture 5 = Inr 1
   \<and> (0::int) < 1 \<and> 2 * 1 \<le> int (length (take 2 df_fixture))
   \<and> calculate_r0_estimate (take 2 df_fixture) 1 = Inr 1"
  using r0_estimate_cases [of 2 df_fixture] r0_estimate_cases [of 5 df_fixture]
        r0_estimate_cases [of 1 "take 2 df_fixture"]
  by (simp add: df_fixture_def Let_def)

text \<open>
  For G = 0 the two halves are empty, their means are NaN, and the exponent
  0/0 raises before any value is returned.
\<close>

lemma r0_estimate_zero_generation_time: "calculate_r0_estimate df 0 = Inl ZeroDivisionError"
  by (simp add: calculate_r0_estimate_def df_tail_def df_head_def series_mean_def)

lemma float_mean_fixed_length:
  assumes "length xs = nat n" and "0 < n"
  shows "float_mean xs = Some (fl64 (real_of_int (sum_list xs) / real_of_int n))"
proof -
  from assms have "xs \<noteq> []" by auto
  moreover have "real (length xs) = real_of_int n" using assms by simp
  ultimately show ?thesis by (simp add: float_mean_def)
qed

lemma trend_label_cases:
  fixes m c t :: real
  assumes "r = (if m = 0 then Inr ''stabil''
                else if t < c then Inr ''naik''
                else if c < - t then Inr ''turun''
                else (Inr ''stabil'' :: error + string))"
    and "0 < t"
  shows "(m = 0 \<longrightarrow> r = Inr ''stabil'')
       \<and> (m \<noteq> 0 \<longrightarrow>
            (r = Inr ''naik'') = (t < c)
          \<and> (r = Inr ''turun'') = (c < - t)
          \<and> (r = Inr ''stabil'') = (\<not> t < c \<and> \<not> c < - t))"
proof (cases "m = 0")
  case True
  with assms show ?thesis by simp
next
  case False
  consider "t < c" | "c < - t" | "\<not> t < c" "\<not> c < - t"
    by blast
  then show ?thesis
  proof cases
    case 1
    then have "\<not> c < - t" using assms(2) by simp
    with 1 False assms(1) show ?thesis by simp
  next
    case 2
    then have "\<not> t < c" using assms(2) by simp
    with 2 False assms(1) show ?thesis by simp
  next
    case 3
    with False assms(1) show ?thesis by simp
  qed
qed

lemma fl64_tenth: "fl64 (1 / 10) = 3602879701896397 / 2 ^ 55"
proof -
  have "fl64 (1 / 10) = real_of_int (round_half_even ((1 / 10) / 2 powi (- 4 - 52))) * 2 powi (- 4 - 52)"
    by (rule fl64_binade) (simp_all add: power_int_minus)
  also have "\<dots> = 3602879701896397 / 2 ^ 55"
    by (simp add: round_half_even_def power_int_minus Let_def)
  finally show ?thesis .
qed

lemma trend_direction_unfolded:
  assumes "0 < D" and "column_of column = Some f" and "\<not> is_datetime_column column"
    and len: "2 * D \<le> int (length df)"
  shows "get_trend_direction df column D =
          (if fl64 (real_of_int (sum_list (map f (take (nat D) (drop (length df - nat (2 * D)) df)))) / real_of_int D) = 0
           then Inr ''stabil''
           else if fl64 (1 / 10)
                   < fl64 (fl64 (fl64 (real_of_int (sum_list (map f (drop (nat D) (drop (length df - nat (2 * D)) df)))) / real_of_int D)
                                 - fl64 (real_of_int (sum_list (map f (take (nat D) (drop (length df - nat (2 * D)) df)))) / real_of_int D))
                           / fl64 (real_of_int (sum_list (map f (take (nat D) (drop (length df - nat (2 * D)) df)))) / real_of_int D))
           then Inr ''naik''
           else if fl64 (fl64 (fl64 (real_of_int (sum_list (map f (drop (nat D) (drop (length df - nat (2 * D)) df)))) / real_of_int D)
                                 - fl64 (real_of_int (sum_list (map f (take (nat D) (drop (length df - nat (2 * D)) df)))) / real_of_int D))
                           / fl64 (real_of_int (sum_list (map f (take (nat D) (drop (length df - nat (2 * D)) df)))) / real_of_int D))
                   < - fl64 (1 / 10)
           then Inr ''turun''
           else Inr ''stabil'')"
proof -
  let ?recent = "drop (length df - nat (2 * D)) df"
  let ?a = "map f (take (nat D) ?recent)"
  let ?b = "map f (drop (nat D) ?recent)"
  let ?m1 = "fl64 (real_of_int (sum_list ?a) / real_of_int D)"
  let ?m2 = "fl64 (real_of_int (sum_list ?b) / real_of_int D)"
  have a: "float_mean ?a = Some ?m1"
    using window_halves(5) [OF assms(1) len] assms(1) by (intro float_mean_fixed_length) simp_all
  have b: "float_mean ?b = Some ?m2"
    using window_halves(6) [OF assms(1) len] assms(1) by (intro float_mean_fixed_length) simp_all
  have nlt: "\<not> int (length df) < D * 2" using len by simp
  have num: "is_datetime_column column = False" using assms(3) by simp
  show ?thesis
    unfolding get_trend_direction_def Let_def assms(2) option.case num
      window_halves(3) [OF assms(1) len] window_halves(4) [OF assms(1) len] a b
    by (simp only: nlt if_False prod.case option.case)
qed

text \<open>
  Claim C7, as amended. With D >= 1 days and an integer column (values summing
  to at most 2^53 in magnitude), trend_direction returns "stable" (the source's
  label is \<open>''stabil''\<close>) whenever the series has fewer than 2D rows or the mean of
  the column over the first D of the last 2D rows is 0. Otherwise the two means,
  their difference and the quotient change = (second - first) / first are
  computed in float64, each rounded to the nearest double, and the result is
  "rising" (\<open>''naik''\<close>) exactly when change exceeds the double 0.1, "falling"
  (\<open>''turun''\<close>) exactly when change is below the double -0.1, and "stable"
  otherwise.
\<close>

theorem trend_direction_cases:
  assumes "0 < D" and "column_of column = Some f" and "\<not> is_datetime_column column"
    and "sum_list (map (\<lambda>r. \<bar>f r\<bar>) df) \<le> 2 ^ 53"
  shows "(int (length df) < 2 * D \<longrightarrow> get_trend_direction df column D = Inr ''stabil'')
       \<and> (2 * D \<le> int (length df) \<longrightarrow>
            (let recent = drop (length df - nat (2 * D)) df;
                 first_mean = fl64 (real_of_int (sum_list (map f (take (nat D) recent))) / real_of_int D);
                 second_mean = fl64 (real_of_int (sum_list (map f (drop (nat D) recent))) / real_of_int D);
                 change = fl64 (fl64 (second_mean - first_mean) / first_mean)
             in (first_mean = 0 \<longrightarrow> get_trend_direction df column D = Inr ''stabil'')
              \<and> (first_mean \<noteq> 0 \<longrightarrow>
                   (get_trend_direction df column D = Inr ''naik'') = (fl64 (1 / 10) < change)
                 \<and> (get_trend_direction df column D = Inr ''turun'') = (change < - fl64 (1 / 10))
                 \<and> (get_trend_direction df column D = Inr ''stabil'')
                     = (\<not> fl64 (1 / 10) < change \<and> \<not> change < - fl64 (1 / 10)))))"
proof (intro conjI impI)
  assume "int (length df) < 2 * D"
  then show "get_trend_direction df column D = Inr ''stabil''"
    by (simp add: get_trend_direction_def mult.commute)
next
  assume len: "2 * D \<le> int (length df)"
  note eq = trend_direction_unfolded [OF assms(1,2,3) len]
  have t: "0 < fl64 (1 / 10)" by (simp add: fl64_tenth)
  show "let recent = drop (length df - nat (2 * D)) df;
                 first_mean = fl64 (real_of_int (sum_list (map f (take (nat D) recent))) / real_of_int D);
                 second_mean = fl64 (real_of_int (sum_list (map f (drop (nat D) recent))) / real_of_int D);
                 change = fl64 (fl64 (second_mean - first_mean) / first_mean)
             in (first_mean = 0 \<longrightarrow> get_trend_direction df column D = Inr ''stabil'')
              \<and> (first_mean \<noteq> 0 \<longrightarrow>
                   (get_trend_direction df column D = Inr ''naik'') = (fl64 (1 / 10) < change)
                 \<and> (get_trend_direction df column D = Inr ''turun'') = (change < - fl64 (1 / 10))
                 \<and> (get_trend_direction df column D = Inr ''stabil'')
                     = (\<not> fl64 (1 / 10) < change \<and> \<not> change < - fl64 (1 / 10)))"
    unfolding Let_def by (rule trend_label_cases [OF eq t])
qed

lemma fl64_30_7: "fl64 (30 / 7) = 4825285315039817 / 2 ^ 50"
proof -
  have "fl64 (30 / 7) = real_of_int (round_half_even ((30 / 7) / 2 powi (2 - 52))) * 2 powi (2 - 52)"
    by (rule fl64_binade) simp_all
  also have "\<dots> = 4825285315039817 / 2 ^ 50"
    by (simp add: round_half_even_def power_int_minus Let_def)
  finally show ?thesis .
qed

lemma fl64_33_7: "fl64 (33 / 7) = 5307813846543799 / 2 ^ 50"
proof -
  have "fl64 (33 / 7) = real_of_int (round_half_even ((33 / 7) / 2 powi (2 - 52))) * 2 powi (2 - 52)"
    by (rule fl64_binade) simp_all
  also have "\<dots> = 5307813846543799 / 2 ^ 50"
    by (simp add: round_half_even_def power_int_minus Let_def)
  finally show ?thesis .
qed

lemma fl64_week_difference:
  "fl64 (5307813846543799 / 2 ^ 50 - 4825285315039817 / 2 ^ 50) = 241264265751991 / 2 ^ 49"
proof -
  have "fl64 (5307813846543799 / 2 ^ 50 - 4825285315039817 / 2 ^ 50)
      = real_of_int (round_half_even ((5307813846543799 / 2 ^ 50 - 4825285315039817 / 2 ^ 50) / 2 powi (- 2 - 52)))
        * 2 powi (- 2 - 52)"
    by (rule fl64_binade) (simp_all add: power_int_minus)
  also have "\<dots> = 241264265751991 / 2 ^ 49"
    by (simp add: round_half_even_def power_int_minus Let_def)
  finally show ?thesis .
qed

lemma fl64_week_change:
  "fl64 ((241264265751991 / 2 ^ 49) / (4825285315039817 / 2 ^ 50)) = 3602879701896399 / 2 ^ 55"
proof -
  have "fl64 ((241264265751991 / 2 ^ 49) / (4825285315039817 / 2 ^ 50))
      = real_of_int (round_half_even (((241264265751991 / 2 ^ 49) / (4825285315039817 / 2 ^ 50)) / 2 powi (- 4 - 52)))
        * 2 powi (- 4 - 52)"
    by (rule fl64_binade) (simp_all add: power_int_minus)
  also have "\<dots> = 3602879701896399 / 2 ^ 55"
    by (simp add: round_half_even_def power_int_minus Let_def)
  finally show ?thesis .
qed

lemma two_weeks_means:
  "real_of_int (sum_list (map Kasus_Baru (take 7 df_two_weeks))) / 7 = 30 / 7"
  "real_of_int (sum_list (map Kasus_Baru (drop 7 df_two_weeks))) / 7 = 33 / 7"
  by (simp_all add: df_two_weeks_def day_row_def)

lemma two_weeks_label: "get_trend_direction df_two_weeks ''Kasus_Baru'' 7 = Inr ''naik''"
proof -
  have col: "column_of ''Kasus_Baru'' = Some Kasus_Baru" by (simp add: column_of_def)
  have num: "\<not> is_datetime_column ''Kasus_Baru''" by (simp add: is_datetime_column_def)
  have seven: "(0::int) < 7" by simp
  have len: "2 * 7 \<le> int (length df_two_weeks)" by (simp add: df_two_weeks_def)
  have m1: "fl64 (real_of_int (sum_list (map Kasus_Baru (take (nat 7)
               (drop (length df_two_weeks - nat (2 * 7)) df_two_weeks)))) / real_of_int 7)
            = 4825285315039817 / 2 ^ 50"
    by (simp add: df_two_weeks_def day_row_def fl64_30_7)
  have m2: "fl64 (real_of_int (sum_list (map Kasus_Baru (drop (nat 7)
               (drop (length df_two_weeks - nat (2 * 7)) df_two_weeks)))) / real_of_int 7)
            = 5307813846543799 / 2 ^ 50"
    by (simp add: df_two_weeks_def day_row_def fl64_33_7)
  show ?thesis
    unfolding trend_direction_unfolded [OF seven col num len] m1 m2
      fl64_week_difference fl64_week_change fl64_tenth
    by simp
qed

theorem trend_direction_cases_witness:
  "(0::int) < 7 \<and> (0::int) < 1
   \<and> column_of ''Kasus_Baru'' = Some Kasus_Baru \<and> \<not> is_datetime_column ''Kasus_Baru''
   \<and> sum_list (map (\<lambda>r. \<bar>Kasus_Baru r\<bar>) df_two_weeks) \<le> 2 ^ 53
   \<and> 2 * 7 \<le> int (length df_two_weeks)
   \<and> fl64 (real_of_int (sum_list (map Kasus_Baru (take (nat 7)
               (drop (length df_two_weeks - nat (2 * 7)) df_two_weeks)))) / real_of_int 7) \<noteq> 0
   \<and> get_trend_direction df_two_weeks ''Kasus_Baru'' 7 = Inr ''naik''
   \<and> sum_list (map (\<lambda>r. \<bar>Kasus_Baru r\<bar>) df_fixture) \<le> 2 ^ 53
   \<and> int (length df_fixture) < 2 * 7
   \<and> get_trend_direction df_fixture ''Kasus_Baru'' 7 = Inr ''stabil''
   \<and> sum_list (map (\<lambda>r. \<bar>Kasus_Baru r\<bar>) (take 2 df_fixture)) \<le> 2 ^ 53
   \<and> 2 * 1 \<le> int (length (take 2 df_fixture))
   \<and> get_trend_direction (take 2 df_fixture) ''Kasus_Baru'' 1 = Inr ''stabil''"
proof -
  have col: "column_of ''Kasus_Baru'' = Some Kasus_Baru" by (simp add: column_of_def)
  have num: "\<not> is_datetime_column ''Kasus_Baru''" by (simp add: is_datetime_column_def)
  have seven: "(0::int) < 7" and one: "(0::int) < 1" by simp_all
  have b1: "sum_list (map (\<lambda>r. \<bar>Kasus_Baru r\<bar>) df_two_weeks) \<le> 2 ^ 53"
    by (simp add: df_two_weeks_def day_row_def)
  have b2: "sum_list (map (\<lambda>r. \<bar>Kasus_Baru r\<bar>) df_fixture) \<le> 2 ^ 53"
    by (simp add: df_fixture_def)
  have b3: "sum_list (map (\<lambda>r. \<bar>Kasus_Baru r\<bar>) (take 2 df_fixture)) \<le> 2 ^ 53"
    by (simp add: df_fixture_def)
  have l1: "2 * 7 \<le> int (length df_two_weeks)" by (simp add: df_two_weeks_def)
  have l2: "int (length df_fixture) < 2 * 7" by (simp add: df_fixture_def)
  have l3: "2 * 1 \<le> int (length (take 2 df_fixture))" by (simp add: df_fixture_def)
  have m1: "fl64 (real_of_int (sum_list (map Kasus_Baru (take (nat 7)
               (drop (length df_two_weeks - nat (2 * 7)) df_two_weeks)))) / real_of_int 7) \<noteq> 0"
    by (simp add: df_two_weeks_def day_row_def fl64_30_7)
  have z: "fl64 (real_of_int (sum_list (map Kasus_Baru (take (nat 1)
               (drop (length (take 2 df_fixture) - nat (2 * 1)) (take 2 df_fixture))))) / real_of_int 1) = 0"
    by (simp add: df_fixture_def fl64_def)
  from trend_direction_cases [OF seven col num b1] l1 m1 two_weeks_label
  have r1: "get_trend_direction df_two_weeks ''Kasus_Baru'' 7 = Inr ''naik''"
    by (simp only: Let_def)
  from trend_direction_cases [OF seven col num b2] l2
  have r2: "get_trend_direction df_fixture ''Kasus_Baru'' 7 = Inr ''stabil''"
    by blast
  from trend_direction_cases [OF one col num b3] l3 z
  have r3: "get_trend_direction (take 2 df_fixture) ''Kasus_Baru'' 1 = Inr ''stabil''"
    by (simp only: Let_def)
  from seven one col num b1 b2 b3 l1 l2 l3 m1 r1 r2 r3 show ?thesis by blast
qed

text \<open>
  Claim C7 as stated fails on two weeks with sums 30 and 33: the change of the
  means 30/7 and 33/7 is exactly 0.1, neither above 0.1 nor below -0.1, so the
  claim gives "stable"; the float64 quotient is 0.10000000000000006 and the
  function returns "rising".
\<close>

theorem trend_direction_exact_tenth_counterexample:
  "real_of_int (sum_list (map Kasus_Baru (take 7 df_two_weeks))) / 7 = 30 / 7
   \<and> real_of_int (sum_list (map Kasus_Baru (drop 7 df_two_weeks))) / 7 = 33 / 7
   \<and> \<not> (1 / 10 < ((33 / 7 - 30 / 7) / (30 / 7) :: real))
   \<and> \<not> (((33 / 7 - 30 / 7) / (30 / 7) :: real) < - (1 / 10))
   \<and> get_trend_direction df_two_weeks ''Kasus_Baru'' 7 = Inr ''naik''"
  using two_weeks_means two_weeks_label by simp

text \<open>On the date column the quotient of timestamps is a TypeError.\<close>

lemma trend_direction_datetime_column:
  "days * 2 \<le> int (length df) \<Longrightarrow> get_trend_direction df ''Tanggal'' days = Inl TypeError"
  by (simp add: get_trend_direction_def column_of_def is_datetime_column_def)

section \<open>Empty source and the fallback generator\<close>

lemma length_cumsum_from: "length (cumsum_from acc xs) = length xs"
  by (induction xs arbitrary: acc) simp_all

lemma length_sample: "length (get_sample_historical_df gauss) = 365"
  by (simp add: get_sample_historical_df_def Let_def cumsum_def length_cumsum_from)

lemma sample_depends_on_seeded_draws:
  assumes "\<forall>i<365. gauss' 42 i = gauss 42 i"
  shows "get_sample_historical_df gauss' = get_sample_historical_df gauss"
proof -
  have "map (\<lambda>i. 0 + 10 * gauss' 42 i) [0..<365] = map (\<lambda>i. 0 + 10 * gauss 42 i) [0..<365]"
    using assms by (intro map_cong) simp_all
  then show ?thesis
    unfolding get_sample_historical_df_def Let_def by (simp only:)
qed

text \<open>
  Claim C5, as amended. Building the time series from a raw source with zero
  valid rows after parsing raises no error: get_historical_df itself returns the
  series of the seeded synthetic generator. That series has exactly 365 rows,
  and all its values (the first row included) are determined by the 365 draws
  that follow the fixed seed 42, so they are identical on every invocation.
\<close>

theorem empty_source_returns_seeded_sample:
  assumes "data = Some d" and "timeline_of d = Some tline"
    and "parse_rows strptime tline (map fst (case tl_cases tline of None \<Rightarrow> [] | Some kvs \<Rightarrow> kvs)) = []"
  shows "get_historical_df strptime gauss data = Inr (get_sample_historical_df gauss)
       \<and> length (get_sample_historical_df gauss) = 365
       \<and> ((\<forall>i<365. gauss' 42 i = gauss 42 i) \<longrightarrow>
            get_sample_historical_df gauss' = get_sample_historical_df gauss)"
proof (intro conjI impI)
  show "get_historical_df strptime gauss data = Inr (get_sample_historical_df gauss)"
    using assms by (simp add: get_historical_df_def Let_def)
  show "length (get_sample_historical_df gauss) = 365"
    by (rule length_sample)
next
  assume "\<forall>i<365. gauss' 42 i = gauss 42 i"
  then show "get_sample_historical_df gauss' = get_sample_historical_df gauss"
    by (rule sample_depends_on_seeded_draws)
qed

theorem empty_source_returns_seeded_sample_witness:
  "timeline_of data_unparsable = Some
        \<lparr>tl_cases = Some [(''2020-01-22'', 5), (''bad'', 99)],
         tl_deaths = Some [(''2020-01-22'', 1)],
         tl_recovered = None\<rparr>
   \<and> parse_rows strptime_fixture
        \<lparr>tl_cases = Some [(''2020-01-22'', 5), (''bad'', 99)],
         tl_deaths = Some [(''2020-01-22'', 1)],
         tl_recovered = None\<rparr> [''2020-01-22'', ''bad''] = []
   \<and> get_historical_df strptime_fixture gauss_zero (Some data_unparsable)
        = Inr (get_sample_historical_df gauss_zero)
   \<and> length (get_sample_historical_df gauss_zero) = 365
   \<and> gauss_other 43 0 \<noteq> gauss_zero 43 0
   \<and> get_sample_historical_df gauss_other = get_sample_historical_df gauss_zero"
proof -
  have tl: "timeline_of data_unparsable = Some
        \<lparr>tl_cases = Some [(''2020-01-22'', 5), (''bad'', 99)],
         tl_deaths = Some [(''2020-01-22'', 1)],
         tl_recovered = None\<rparr>"
    by (simp add: data_unparsable_def)
  have em: "parse_rows strptime_fixture
        \<lparr>tl_cases = Some [(''2020-01-22'', 5), (''bad'', 99)],
         tl_deaths = Some [(''2020-01-22'', 1)],
         tl_recovered = None\<rparr>
        (map fst (case tl_cases \<lparr>tl_cases = Some [(''2020-01-22'', 5), (''bad'', 99)],
         tl_deaths = Some [(''2020-01-22'', 1)],
         tl_recovered = None\<rparr> of None \<Rightarrow> [] | Some kvs \<Rightarrow> kvs)) = []"
    by (simp add: strptime_fixture_def)
  have g: "\<forall>i<365. gauss_other 42 i = gauss_zero 42 i"
    by (simp add: gauss_other_def gauss_zero_def)
  show ?thesis
    using empty_source_returns_seeded_sample [OF refl tl em, of gauss_zero gauss_other] tl em g
    by (simp add: gauss_other_def gauss_zero_def)
qed

text \<open>
  Claim C5 as stated fails on a payload whose keys do not parse: the build does
  not fail with EmptyDataError, it returns the generator's frame.
\<close>

theorem empty_source_no_error_counterexample:
  "get_historical_df strptime_fixture gauss_zero (Some data_unparsable)
     = Inr (get_sample_historical_df gauss_zero)
   \<and> get_historical_df strptime_fixture gauss_zero (Some data_unparsable) \<noteq> Inl EmptyDataError"
  by (simp add: get_historical_df_def data_unparsable_def strptime_fixture_def Let_def)

text \<open>
  The generator does not derive its delta columns by differencing: it draws the
  daily cases (each at least 1) and accumulates them, so the first row of its
  frame has a positive Kasus_Baru, equal to its Kasus.
\<close>

lemma astype_int_clipped: "1 \<le> astype_int (max 1 x)"
proof -
  have "(1::real) \<le> max 1 x" by simp
  then have "1 \<le> \<lfloor>max 1 x\<rfloor>" by (simp add: le_floor_iff)
  moreover have "0 \<le> max 1 x" by (simp add: max_def)
  ultimately show ?thesis by (simp only: astype_int_def if_True)
qed

lemma sample_first_row_delta:
  "1 \<le> Kasus_Baru (get_sample_historical_df gauss ! 0)
   \<and> Kasus (get_sample_historical_df gauss ! 0) = Kasus_Baru (get_sample_historical_df gauss ! 0)"
proof -
  have u: "[0..<365] = 0 # [Suc 0..<365]" by (rule upt_conv_Cons) simp
  show ?thesis
    unfolding get_sample_historical_df_def Let_def cumsum_def u
    by (simp add: astype_int_clipped del: upt_rec_numeral)
qed

section \<open>Doubling time\<close>

text \<open>
  The doubling of 1000 to 2000 is followed through the float64 operations of
  \<^verbatim>\<open>calculate_doubling_time\<close>. The fourteenth root of 2 is located between two
  rationals by comparing fourteenth powers; this fixes the double that the
  power rounds to, and bounds the logarithm of that double relative to ln 2.
\<close>

lemma round_half_even_near:
  assumes "\<bar>y - real_of_int n\<bar> < 1 / 2"
  shows "round_half_even y = n"
proof -
  from assms have up: "y - real_of_int n < 1 / 2" and dn: "- (1 / 2) < y - real_of_int n"
    by linarith+
  show ?thesis
  proof (cases "real_of_int n \<le> y")
    case True
    have f: "\<lfloor>y\<rfloor> = n" using True up by (intro floor_unique) linarith+
    show ?thesis using up by (simp add: round_half_even_def f)
  next
    case False
    have f: "\<lfloor>y\<rfloor> = n - 1" using False dn by (intro floor_unique) (simp, linarith)+
    have "1 / 2 < y - real_of_int (n - 1)" using dn by simp
    then show ?thesis by (simp add: round_half_even_def f)
  qed
qed

lemma fl64_fourteenth: "fl64 (1 / 14) = 2573485501354569 / 2 ^ 55"
proof -
  have "fl64 (1 / 14) = real_of_int (round_half_even ((1 / 14) / 2 powi (- 4 - 52))) * 2 powi (- 4 - 52)"
    by (rule fl64_binade) (simp_all add: power_int_minus)
  also have "\<dots> = 2573485501354569 / 2 ^ 55"
    by (simp add: round_half_even_def power_int_minus Let_def)
  finally show ?thesis .
qed

lemma ln_lower: "0 < t \<Longrightarrow> 1 - 1 / t \<le> ln (t::real)"
proof -
  assume t: "0 < t"
  then have "ln (1 / t) \<le> 1 / t - 1" by (intro ln_le_minus_one) simp
  then show ?thesis using t by (simp add: ln_div)
qed

lemma ln2_bounds: "1 / 2 \<le> ln (2::real)" "ln (2::real) \<le> 5 / 6"
proof -
  show "1 / 2 \<le> ln (2::real)" using ln_lower [of 2] by simp
  have "ln ((3 / 2) * (4 / 3) :: real) = ln (3 / 2) + ln (4 / 3)"
    by (rule ln_mult_pos) simp_all
  then have "ln (2::real) = ln (3 / 2) + ln (4 / 3)" by simp
  moreover have "ln (3 / 2 :: real) \<le> 3 / 2 - 1" by (intro ln_le_minus_one) simp
  moreover have "ln (4 / 3 :: real) \<le> 4 / 3 - 1" by (intro ln_le_minus_one) simp
  ultimately show "ln (2::real) \<le> 5 / 6" by simp
qed

lemma root14_power: "(2 powr (1 / 14) :: real) ^ 14 = 2"
proof -
  have "(2 powr (1 / 14) :: real) ^ 14 = (2 powr (1 / 14)) powr 14"
    by simp
  also have "\<dots> = 2 powr ((1 / 14) * 14)" by (simp only: powr_powr)
  finally show ?thesis by simp
qed

lemma root14_bounds:
  "310128620751795907129 / 2 ^ 68 \<le> (2 powr (1 / 14) :: real)"
  "(2 powr (1 / 14) :: real) \<le> 155064310375897953577 / 2 ^ 67"
proof -
  let ?r = "2 powr (1 / 14) :: real"
  have r: "0 \<le> ?r" by simp
  have "(310128620751795907129 / 2 ^ 68 :: real) ^ 14 \<le> ?r ^ 14"
    unfolding root14_power by (simp add: power_divide)
  then show "310128620751795907129 / 2 ^ 68 \<le> ?r"
    using r by (rule power_le_imp_le_base [where n = 13, simplified])
  have "?r ^ 14 \<le> (155064310375897953577 / 2 ^ 67 :: real) ^ 14"
    unfolding root14_power by (simp add: power_divide)
  then show "?r \<le> 155064310375897953577 / 2 ^ 67"
    by (rule power_le_imp_le_base [where n = 13, simplified]) simp
qed

lemma pow_fourteenth_bounds:
  "310128620751795907129 / 2 ^ 68 * (1 - 1 / 252201579132747776)
     \<le> (2 powr (2573485501354569 / 2 ^ 55) :: real)"
  "(2 powr (2573485501354569 / 2 ^ 55) :: real) \<le> 155064310375897953577 / 2 ^ 67"
proof -
  let ?x = "2573485501354569 / 2 ^ 55 :: real"
  let ?d = "1 / 252201579132747776 :: real"
  have x: "?x = 1 / 14 + - ?d" by simp
  have "(2::real) powr ?x \<le> 2 powr (1 / 14)"
    by (rule powr_mono) simp_all
  with root14_bounds(2) show "(2 powr ?x :: real) \<le> 155064310375897953577 / 2 ^ 67"
    by linarith
  have "1 + (- ?d * ln 2) \<le> exp (- ?d * ln 2)" by (rule exp_ge_add_one_self)
  moreover have "?d * ln 2 \<le> ?d * 1"
    using ln2_bounds(2) by (intro mult_left_mono) simp_all
  moreover have "(2::real) powr (- ?d) = exp (- ?d * ln 2)" by (simp add: powr_def)
  ultimately have e: "1 - ?d \<le> (2::real) powr (- ?d)" by linarith
  have "(2::real) powr ?x = 2 powr (1 / 14) * 2 powr (- ?d)"
    unfolding x by (rule powr_add)
  moreover have "310128620751795907129 / 2 ^ 68 * (1 - ?d) \<le> 2 powr (1 / 14) * (2::real) powr (- ?d)"
    using root14_bounds(1) e by (intro mult_mono) simp_all
  ultimately show "310128620751795907129 / 2 ^ 68 * (1 - ?d) \<le> (2 powr ?x :: real)"
    by simp
qed

lemma fl64_pow_fourteenth:
  "fl64 (2 powr (2573485501354569 / 2 ^ 55)) = 2366093603147857 / 2 ^ 51"
proof -
  let ?p = "2 powr (2573485501354569 / 2 ^ 55) :: real"
  note b = pow_fourteenth_bounds
  have lo: "1 \<le> ?p" using b(1) by simp
  have hi: "?p < 2" using b(2) by simp
  have "fl64 ?p = real_of_int (round_half_even (?p / 2 powi (0 - 52))) * 2 powi (0 - 52)"
    using lo hi by (intro fl64_binade) simp_all
  moreover have "round_half_even (?p / 2 powi (0 - 52)) = 4732187206295714"
  proof (rule round_half_even_near)
    define y where "y = ?p * 2 ^ 52"
    have e: "?p / 2 powi (0 - 52) = y" by (simp add: power_int_minus y_def)
    have "4732187206295714 - 1 / 2 < y" using b(1) by (simp add: y_def)
    moreover have "y < 4732187206295714 + 1 / 2" using b(2) by (simp add: y_def)
    ultimately have "\<bar>y - 4732187206295714\<bar> < 1 / 2" by linarith
    then show "\<bar>?p / 2 powi (0 - 52) - real_of_int 4732187206295714\<bar> < 1 / 2"
      unfolding e by simp
  qed
  ultimately show ?thesis by (simp add: power_int_minus)
qed

lemma fl64_growth:
  "fl64 (2366093603147857 / 2 ^ 51 - 1) = 114293789462609 / 2 ^ 51"
proof -
  have "fl64 (2366093603147857 / 2 ^ 51 - 1)
      = real_of_int (round_half_even ((2366093603147857 / 2 ^ 51 - 1) / 2 powi (- 5 - 52)))
        * 2 powi (- 5 - 52)"
    by (rule fl64_binade) (simp_all add: power_int_minus)
  also have "\<dots> = 114293789462609 / 2 ^ 51"
    by (simp add: round_half_even_def power_int_minus Let_def)
  finally show ?thesis .
qed

lemma fl64_one_plus_growth:
  "fl64 (1 + 114293789462609 / 2 ^ 51) = 2366093603147857 / 2 ^ 51"
proof -
  have "fl64 (1 + 114293789462609 / 2 ^ 51)
      = real_of_int (round_half_even ((1 + 114293789462609 / 2 ^ 51) / 2 powi (0 - 52)))
        * 2 powi (0 - 52)"
    by (rule fl64_binade) (simp_all add: power_int_minus)
  also have "\<dots> = 2366093603147857 / 2 ^ 51"
    by (simp add: round_half_even_def power_int_minus Let_def)
  finally show ?thesis .
qed

lemma ln_pow_bounds:
  "ln 2 / 14 + (1 - (155064310375897953577 / 2 ^ 67) / (2366093603147857 / 2 ^ 51))
     \<le> ln (2366093603147857 / 2 ^ 51 :: real)"
  "ln (2366093603147857 / 2 ^ 51 :: real)
     \<le> ln 2 / 14 + ((2366093603147857 / 2 ^ 51) / (310128620751795907129 / 2 ^ 68) - 1)"
proof -
  let ?P = "2366093603147857 / 2 ^ 51 :: real"
  let ?r = "2 powr (1 / 14) :: real"
  have r: "0 < ?r" by simp
  have P: "0 < ?P" by simp
  have "?P = ?r * (?P / ?r)" using r by simp
  then have "ln ?P = ln (?r * (?P / ?r))" by simp
  also have "\<dots> = ln ?r + ln (?P / ?r)"
    using r P by (intro ln_mult_pos) simp_all
  finally have s: "ln ?P = ln 2 / 14 + ln (?P / ?r)" by simp
  have t: "0 < ?P / ?r" using r P by simp
  have "1 - 1 / (?P / ?r) \<le> ln (?P / ?r)" using t by (rule ln_lower)
  moreover have "1 / (?P / ?r) = ?r / ?P" by simp
  moreover have "?r / ?P \<le> (155064310375897953577 / 2 ^ 67) / ?P"
    using root14_bounds(2) P by (intro divide_right_mono) simp_all
  ultimately show "ln 2 / 14 + (1 - (155064310375897953577 / 2 ^ 67) / ?P) \<le> ln ?P"
    unfolding s by linarith
  have "ln (?P / ?r) \<le> ?P / ?r - 1" using t by (rule ln_le_minus_one)
  moreover have "?P / ?r \<le> ?P / (310128620751795907129 / 2 ^ 68)"
    using root14_bounds(1) by (intro divide_left_mono) simp_all
  ultimately show "ln ?P \<le> ln 2 / 14 + (?P / (310128620751795907129 / 2 ^ 68) - 1)"
    unfolding s by linarith
qed

lemma abs_diff_bounds:
  fixes a b e :: real
  assumes "\<bar>a - b\<bar> \<le> e"
  shows "b - e \<le> a" and "a \<le> b + e"
  using assms by linarith+

lemma doubling_value_bounds:
  "14 - 1 / 2 ^ 45 < fl64 (fl64 (ln 2) / fl64 (ln (2366093603147857 / 2 ^ 51)))"
  "fl64 (fl64 (ln 2) / fl64 (ln (2366093603147857 / 2 ^ 51))) < 14"
proof -
  define A :: real where "A = ln 2"
  define lnP :: real where "lnP = ln (2366093603147857 / 2 ^ 51)"
  define F2 where "F2 = fl64 A"
  define L where "L = fl64 lnP"
  define y where "y = F2 / L"
  have A: "1 / 2 \<le> A" "A \<le> 5 / 6" using ln2_bounds by (simp_all add: A_def)
  have lnP: "A / 14 + (1 - (155064310375897953577 / 2 ^ 67) / (2366093603147857 / 2 ^ 51)) \<le> lnP"
            "lnP \<le> A / 14 + ((2366093603147857 / 2 ^ 51) / (310128620751795907129 / 2 ^ 68) - 1)"
    using ln_pow_bounds by (simp_all add: A_def lnP_def)
  have "\<bar>fl64 A - A\<bar> \<le> 2 powi (- 1 - 53)"
    using A by (intro fl64_error) (simp_all add: power_int_minus)
  from abs_diff_bounds [OF this]
  have F2: "A - 1 / 2 ^ 54 \<le> F2" "F2 \<le> A + 1 / 2 ^ 54"
    by (simp_all add: F2_def power_int_minus)
  have lnP_lo: "1 / 2 ^ 5 \<le> lnP" using lnP(1) A(1) by simp
  have lnP_hi: "lnP < 1 / 2 ^ 4" using lnP(2) A(2) by simp
  have "\<bar>fl64 lnP - lnP\<bar> \<le> 2 powi (- 5 - 53)"
    using lnP_lo lnP_hi by (intro fl64_error) (simp_all add: power_int_minus)
  from abs_diff_bounds [OF this]
  have L: "lnP - 1 / 2 ^ 58 \<le> L" "L \<le> lnP + 1 / 2 ^ 58"
    by (simp_all add: L_def power_int_minus)
  have Lpos: "0 < L" using L(1) lnP_lo by simp
  have up: "F2 < (14 - 1 / 2 ^ 50) * L"
    using F2(2) L(1) lnP(1) A(2) by simp
  have dn: "(14 - 1 / 2 ^ 46) * L < F2"
    using F2(1) L(2) lnP(2) A(1) by simp
  have y_up: "y < 14 - 1 / 2 ^ 50"
    unfolding y_def using up Lpos by (simp only: pos_divide_less_eq)
  have y_dn: "14 - 1 / 2 ^ 46 < y"
    unfolding y_def using dn Lpos by (simp only: pos_less_divide_eq)
  have "\<bar>fl64 y - y\<bar> \<le> 2 powi (3 - 53)"
    using y_up y_dn by (intro fl64_error) simp_all
  from abs_diff_bounds [OF this]
  have v: "y - 1 / 2 ^ 50 \<le> fl64 y" "fl64 y \<le> y + 1 / 2 ^ 50"
    by (simp_all add: power_int_minus)
  have e: "fl64 (fl64 (ln 2) / fl64 (ln (2366093603147857 / 2 ^ 51))) = fl64 y"
    by (simp add: y_def F2_def L_def A_def lnP_def)
  show "14 - 1 / 2 ^ 45 < fl64 (fl64 (ln 2) / fl64 (ln (2366093603147857 / 2 ^ 51)))"
    unfolding e using v(1) y_dn by simp
  show "fl64 (fl64 (ln 2) / fl64 (ln (2366093603147857 / 2 ^ 51))) < 14"
    unfolding e using v(2) y_up by simp
qed

lemma int_true_divide_bounded:
  assumes "\<bar>a\<bar> \<le> 2 ^ 53" and "\<bar>b\<bar> \<le> 2 ^ 53"
  shows "int_true_divide t a b = fl64 (real_of_int a / real_of_int b)"
  by (cases t) (simp_all add: int_true_divide_def fl64_of_int_exact [OF assms(1)]
      fl64_of_int_exact [OF assms(2)])

lemma doubling_time_unfolded:
  assumes "14 \<le> length df"
  shows "calculate_doubling_time df =
           (if Kasus (hd (drop (length df - 14) df)) \<le> 0
               \<or> Kasus (last df) \<le> Kasus (hd (drop (length df - 14) df))
               \<or> fl64 (fl64 (int_true_divide (infer_dtype (map Kasus df)) (Kasus (last df))
                                   (Kasus (hd (drop (length df - 14) df)))
                             powr fl64 (1 / 14)) - 1) \<le> 0
            then None
            else Some (fl64 (fl64 (ln 2)
                       / fl64 (ln (fl64 (1 + fl64 (fl64 (int_true_divide (infer_dtype (map Kasus df))
                                   (Kasus (last df)) (Kasus (hd (drop (length df - 14) df)))
                             powr fl64 (1 / 14)) - 1)))))))"
proof -
  have t: "df_tail 14 df = drop (length df - 14) df" by (simp add: df_tail_def)
  have "drop (length df - 14) df \<noteq> []" using assms by auto
  then have l: "last (drop (length df - 14) df) = last df" by simp
  have n: "\<not> length df < 14" using assms by simp
  show ?thesis
    unfolding calculate_doubling_time_def Let_def t l
    by (simp only: n if_False) auto
qed

lemma doubling_time_instance:
  assumes "length df = 14" and "Kasus (hd df) = 1000" and "Kasus (last df) = 2000"
  shows "calculate_doubling_time df
           = Some (fl64 (fl64 (ln 2) / fl64 (ln (2366093603147857 / 2 ^ 51))))"
proof -
  have len: "14 \<le> length df" using assms(1) by simp
  have d: "drop (length df - 14) df = df" using assms(1) by simp
  have "fl64 (real_of_int 2) = real_of_int 2" by (rule fl64_of_int_exact) simp
  then have "fl64 (real_of_int 2000 / real_of_int 1000) = 2" by simp
  moreover have "int_true_divide (infer_dtype (map Kasus df)) 2000 1000
                 = fl64 (real_of_int 2000 / real_of_int 1000)"
    by (rule int_true_divide_bounded) simp_all
  ultimately have q: "int_true_divide (infer_dtype (map Kasus df)) 2000 1000 = 2" by simp
  have g: "fl64 (fl64 (int_true_divide (infer_dtype (map Kasus df)) 2000 1000 powr fl64 (1 / 14)) - 1)
           = 114293789462609 / 2 ^ 51"
    by (simp only: q fl64_fourteenth fl64_pow_fourteenth fl64_growth)
  have c: "\<not> ((1000::int) \<le> 0 \<or> (2000::int) \<le> 1000 \<or> (114293789462609 / 2 ^ 51 :: real) \<le> 0)"
    by simp
  show ?thesis
    unfolding doubling_time_unfolded [OF len] d assms(2,3) g fl64_one_plus_growth
    by (simp only: c if_False)
qed

text \<open>
  Claim C4, as amended. doubling_time over a fixed 14-row lookback of cumulative
  cases returns None when the series has fewer than 14 rows, or start <= 0, or
  end <= start. Otherwise, for counts up to 2^53, it computes
  growth = (end/start)^(1/14) - 1 in float64, returns None exactly when that
  growth is <= 0, and else returns the float64 value of ln(2)/ln(1+growth). On
  a 14-row series whose cumulative cases go from exactly 1000 to exactly 2000
  it returns a double strictly below 14.0 and within 2^-45 of it
  (13.999999999999995), not 14.0.
\<close>

theorem doubling_time_float64:
  "(length df < 14 \<longrightarrow> calculate_doubling_time df = None)
   \<and> (14 \<le> length df \<longrightarrow>
        (let recent = drop (length df - 14) df;
             start_cases = Kasus (hd recent);
             end_cases = Kasus (last df);
             growth = fl64 (fl64 (fl64 (real_of_int end_cases / real_of_int start_cases)
                                   powr fl64 (1 / 14)) - 1)
         in (start_cases \<le> 0 \<or> end_cases \<le> start_cases \<longrightarrow> calculate_doubling_time df = None)
          \<and> (0 < start_cases \<and> start_cases < end_cases \<and> end_cases \<le> 2 ^ 53 \<longrightarrow>
               (calculate_doubling_time df = None) = (growth \<le> 0)
             \<and> (0 < growth \<longrightarrow>
                  calculate_doubling_time df
                    = Some (fl64 (fl64 (ln 2) / fl64 (ln (fl64 (1 + growth)))))))))
   \<and> (length df = 14 \<and> Kasus (hd df) = 1000 \<and> Kasus (last df) = 2000 \<longrightarrow>
        (\<exists>v. calculate_doubling_time df = Some v \<and> 14 - 1 / 2 ^ 45 < v \<and> v < 14))"
proof (intro conjI impI)
  assume "length df < 14"
  then show "calculate_doubling_time df = None"
    by (simp add: calculate_doubling_time_def)
next
  assume len: "14 \<le> length df"
  define s where "s = Kasus (hd (drop (length df - 14) df))"
  define e where "e = Kasus (last df)"
  define growth where
    "growth = fl64 (fl64 (fl64 (real_of_int e / real_of_int s) powr fl64 (1 / 14)) - 1)"
  note eq = doubling_time_unfolded [OF len, folded s_def e_def]
  have guard: "calculate_doubling_time df = None" if "s \<le> 0 \<or> e \<le> s"
    unfolding eq using that by auto
  have num: "(calculate_doubling_time df = None) = (growth \<le> 0)
             \<and> (0 < growth \<longrightarrow>
                  calculate_doubling_time df
                    = Some (fl64 (fl64 (ln 2) / fl64 (ln (fl64 (1 + growth))))))"
    if b: "0 < s \<and> s < e \<and> e \<le> 2 ^ 53"
  proof -
    from b have "\<bar>e\<bar> \<le> 2 ^ 53" and "\<bar>s\<bar> \<le> 2 ^ 53" by simp_all
    then have q: "int_true_divide (infer_dtype (map Kasus df)) e s
                  = fl64 (real_of_int e / real_of_int s)"
      by (rule int_true_divide_bounded)
    have n: "\<not> s \<le> 0" "\<not> e \<le> s" using b by simp_all
    show ?thesis
      unfolding eq q growth_def [symmetric] using n by auto
  qed
  show "let recent = drop (length df - 14) df;
             start_cases = Kasus (hd recent);
             end_cases = Kasus (last df);
             growth = fl64 (fl64 (fl64 (real_of_int end_cases / real_of_int start_cases)
                                   powr fl64 (1 / 14)) - 1)
         in (start_cases \<le> 0 \<or> end_cases \<le> start_cases \<longrightarrow> calculate_doubling_time df = None)
          \<and> (0 < start_cases \<and> start_cases < end_cases \<and> end_cases \<le> 2 ^ 53 \<longrightarrow>
               (calculate_doubling_time df = None) = (growth \<le> 0)
             \<and> (0 < growth \<longrightarrow>
                  calculate_doubling_time df
                    = Some (fl64 (fl64 (ln 2) / fl64 (ln (fl64 (1 + growth)))))))"
    unfolding Let_def s_def [symmetric] e_def [symmetric] growth_def [symmetric]
    using guard num by blast
next
  assume "length df = 14 \<and> Kasus (hd df) = 1000 \<and> Kasus (last df) = 2000"
  then have "calculate_doubling_time df
           = Some (fl64 (fl64 (ln 2) / fl64 (ln (2366093603147857 / 2 ^ 51))))"
    by (intro doubling_time_instance) simp_all
  with doubling_value_bounds
  show "\<exists>v. calculate_doubling_time df = Some v \<and> 14 - 1 / 2 ^ 45 < v \<and> v < 14"
    by blast
qed

lemma df_doubling_shape:
  "length df_doubling = 14" "Kasus (hd df_doubling) = 1000" "Kasus (last df_doubling) = 2000"
  by (simp_all add: df_doubling_def day_row_def)

lemma doubling_growth_value:
  "fl64 (fl64 (fl64 (real_of_int 2000 / real_of_int 1000) powr fl64 (1 / 14)) - 1)
     = 114293789462609 / 2 ^ 51"
proof -
  have "fl64 (real_of_int 2) = real_of_int 2" by (rule fl64_of_int_exact) simp
  then have q: "fl64 (real_of_int 2000 / real_of_int 1000) = 2" by simp
  show ?thesis by (simp only: q fl64_fourteenth fl64_pow_fourteenth fl64_growth)
qed

lemma df_reversed_shape:
  "14 \<le> length (rev df_doubling)"
  "Kasus (hd (drop (length (rev df_doubling) - 14) (rev df_doubling))) = 2000"
  "Kasus (last (rev df_doubling)) = 1000"
  by (simp_all add: df_doubling_def day_row_def)

theorem doubling_time_float64_witness:
  "length df_doubling = 14 \<and> Kasus (hd df_doubling) = 1000 \<and> Kasus (last df_doubling) = 2000
   \<and> (0::int) < 1000 \<and> (1000::int) < 2000 \<and> (2000::int) \<le> 2 ^ 53
   \<and> (0::real) < 114293789462609 / 2 ^ 51
   \<and> calculate_doubling_time df_doubling
        = Some (fl64 (fl64 (ln 2) / fl64 (ln (fl64 (1 + 114293789462609 / 2 ^ 51)))))
   \<and> (\<exists>v. calculate_doubling_time df_doubling = Some v \<and> 14 - 1 / 2 ^ 45 < v \<and> v < 14)
   \<and> length (take 3 df_doubling) < 14
   \<and> calculate_doubling_time (take 3 df_doubling) = None
   \<and> 14 \<le> length (rev df_doubling)
   \<and> Kasus (last (rev df_doubling)) \<le> Kasus (hd (drop (length (rev df_doubling) - 14) (rev df_doubling)))
   \<and> calculate_doubling_time (rev df_doubling) = None"
proof -
  have s: "length (take 3 df_doubling) < 14" by (simp add: df_doubling_def)
  have d: "drop (length df_doubling - 14) df_doubling = df_doubling"
    by (simp add: df_doubling_shape)
  have len: "14 \<le> length df_doubling" by (simp add: df_doubling_shape)
  have pos: "(0::real) < 114293789462609 / 2 ^ 51" by simp
  have bnd: "(0::int) < 1000 \<and> (1000::int) < 2000 \<and> (2000::int) \<le> 2 ^ 53" by simp
  from doubling_time_float64 [of df_doubling] df_doubling_shape
  have a: "\<exists>v. calculate_doubling_time df_doubling = Some v \<and> 14 - 1 / 2 ^ 45 < v \<and> v < 14"
    by blast
  from doubling_time_float64 [of df_doubling, unfolded Let_def d,
         unfolded df_doubling_shape(2,3) doubling_growth_value] len bnd pos
  have v: "calculate_doubling_time df_doubling
        = Some (fl64 (fl64 (ln 2) / fl64 (ln (fl64 (1 + 114293789462609 / 2 ^ 51)))))"
    by blast
  from doubling_time_float64 [of "take 3 df_doubling"] s
  have b: "calculate_doubling_time (take 3 df_doubling) = None"
    by blast
  have le: "Kasus (last (rev df_doubling)) \<le> Kasus (hd (drop (length (rev df_doubling) - 14) (rev df_doubling)))"
    by (simp only: df_reversed_shape)
  from doubling_time_float64 [of "rev df_doubling"] df_reversed_shape(1) le
  have c: "calculate_doubling_time (rev df_doubling) = None"
    unfolding Let_def by blast
  from a b c v s le bnd pos df_doubling_shape df_reversed_shape(1) show ?thesis by blast
qed

text \<open>
  Claim C4 as stated fails on its own example: for fourteen rows from 1000 to
  2000 the result is not 14.0.
\<close>

theorem doubling_time_not_fourteen_counterexample:
  "length df_doubling = 14 \<and> Kasus (hd df_doubling) = 1000 \<and> Kasus (last df_doubling) = 2000
   \<and> calculate_doubling_time df_doubling \<noteq> Some 14"
proof -
  have "calculate_doubling_time df_doubling
           = Some (fl64 (fl64 (ln 2) / fl64 (ln (2366093603147857 / 2 ^ 51))))"
    by (intro doubling_time_instance df_doubling_shape)
  with doubling_value_bounds(2) have "calculate_doubling_time df_doubling \<noteq> Some 14"
    by auto
  with df_doubling_shape show ?thesis by blast
qed

text \<open>
  The guard on the growth rate is live in float64: from 10^15 to 10^15 + 1 the
  quotient is 1 + 5 * 2^-52, its power rounds to 1.0, the growth is 0 and the
  result is None, although end > start > 0.
\<close>

lemma fl64_ratio_guard: "fl64 (1000000000000001 / 1000000000000000) = 4503599627370501 / 2 ^ 52"
proof -
  have "fl64 (1000000000000001 / 1000000000000000)
      = real_of_int (round_half_even ((1000000000000001 / 1000000000000000) / 2 powi (0 - 52)))
        * 2 powi (0 - 52)"
    by (rule fl64_binade) simp_all
  also have "\<dots> = 4503599627370501 / 2 ^ 52"
    by (simp add: round_half_even_def power_int_minus Let_def)
  finally show ?thesis .
qed

lemma fl64_pow_guard:
  "fl64 ((4503599627370501 / 2 ^ 52) powr (2573485501354569 / 2 ^ 55)) = 1"
proof -
  let ?r = "4503599627370501 / 2 ^ 52 :: real"
  let ?p = "?r powr (2573485501354569 / 2 ^ 55)"
  let ?b = "1 + 1 / 2 ^ 53 :: real"
  have r1: "1 \<le> ?r" by simp
  have "(?r powr (1 / 14)) ^ 14 = (?r powr (1 / 14)) powr 14" by simp
  also have "\<dots> = ?r powr ((1 / 14) * 14)" by (simp only: powr_powr)
  finally have "(?r powr (1 / 14)) ^ 14 = ?r" by simp
  moreover have "?r < ?b ^ 14" by (simp add: power_divide field_simps)
  ultimately have "(?r powr (1 / 14)) ^ 14 < ?b ^ 14" by simp
  then have "?r powr (1 / 14) < ?b"
    by (rule power_less_imp_less_base) simp
  moreover have "?p \<le> ?r powr (1 / 14)" using r1 by (intro powr_mono) simp_all
  ultimately have hi: "?p < ?b" by linarith
  have lo: "1 \<le> ?p" using r1 by (intro ge_one_powr_ge_zero) simp_all
  have "fl64 ?p = real_of_int (round_half_even (?p / 2 powi (0 - 52))) * 2 powi (0 - 52)"
    using lo hi by (intro fl64_binade) simp_all
  moreover have "round_half_even (?p / 2 powi (0 - 52)) = 4503599627370496"
  proof (rule round_half_even_near)
    define y where "y = ?p * 2 ^ 52"
    have e: "?p / 2 powi (0 - 52) = y" by (simp add: power_int_minus y_def)
    have "4503599627370496 \<le> y" using lo by (simp add: y_def)
    moreover have "y < 4503599627370496 + 1 / 2" using hi by (simp add: y_def)
    ultimately have "\<bar>y - 4503599627370496\<bar> < 1 / 2" by linarith
    then show "\<bar>?p / 2 powi (0 - 52) - real_of_int 4503599627370496\<bar> < 1 / 2"
      unfolding e by simp
  qed
  ultimately show ?thesis by (simp add: power_int_minus)
qed

lemma doubling_time_growth_guard:
  assumes "length df = 14" and "Kasus (hd df) = 1000000000000000"
    and "Kasus (last df) = 1000000000000001"
  shows "calculate_doubling_time df = None"
proof -
  have len: "14 \<le> length df" using assms(1) by simp
  have d: "drop (length df - 14) df = df" using assms(1) by simp
  have "int_true_divide (infer_dtype (map Kasus df)) 1000000000000001 1000000000000000
        = fl64 (real_of_int 1000000000000001 / real_of_int 1000000000000000)"
    by (rule int_true_divide_bounded) simp_all
  then have q: "int_true_divide (infer_dtype (map Kasus df)) 1000000000000001 1000000000000000
           = 4503599627370501 / 2 ^ 52"
    using fl64_ratio_guard by simp
  have z: "fl64 ((1::real) - 1) = 0" by (simp add: fl64_def)
  have g: "fl64 (fl64 (int_true_divide (infer_dtype (map Kasus df)) 1000000000000001 1000000000000000
                        powr fl64 (1 / 14)) - 1) = 0"
    by (simp only: q fl64_fourteenth fl64_pow_guard z)
  show ?thesis
    unfolding doubling_time_unfolded [OF len] d assms(2,3) g
    by simp
qed

end
